theory Spec2Isabelle
  imports Complex_Main "HOL-Library.AList"
begin

section \<open>The handcrafted dialogue policy of ADVISER (services/policy/policy_handcrafted.py)\<close>

text \<open>
  A shallow embedding of class \<open>HandcraftedPolicy\<close>. Python values are modelled as
  follows: a \<open>dict\<close> is an association list in insertion order (its keys are
  distinct), \<open>None\<close> is \<open>None\<close> of an option type, an exception is the left
  injection of a sum type, and the mutable fields of the policy object are a record
  that every method takes and returns.
\<close>

subsection \<open>Action tags\<close>

text \<open>
  Modelled from the spec: the enumerations \<open>UserActionType\<close> (utils/useract.py) and
  \<open>SysActionType\<close> (utils/sysact.py) are not among the source files. Their members
  below are the tags the policy refers to; \<open>Inform\<close> and \<open>Request\<close> are the non-filler
  user actions that the docstring of \<open>_remove_gen_actions\<close> names.
\<close>

datatype UserActionType =
    Inform | NegativeInform | Request | Hello | Bye | Thanks | RequestAlternatives
  | Bad | SelectDomain | NewDialogue | GiveRating | WriteReview | WrittenReview
  | AskDistance | InformStartPoint | InformDistanceManner | AskOpeningDay | AskManner

datatype SysActionType =
    Welcome | Bye | RequestMore | Bad | GuideUser | Request | InformByName
  | InformByAlternatives | ConfirmGiveRating | AskWriteReview | ConfirmWriteReview
  | AskStartPoint | AskDistanceManner | InformDistance | BadTravelManner | BadAddress
  | InformOpeningDay | InformManner | WhatDoYouWant

subsection \<open>Exceptions and Python primitives\<close>

datatype error =
  AttributeError | KeyError | IndexError | ValueError | TypeError | JSONDecodeError

text \<open>\<open>xs[i]\<close> on a list: a negative index counts from the end, out of range raises.\<close>

definition py_index :: "'a list \<Rightarrow> int \<Rightarrow> error + 'a" where
  "py_index xs i =
     (if 0 \<le> i \<and> i < int (length xs) then Inr (xs ! nat i)
      else if i < 0 \<and> - int (length xs) \<le> i then Inr (xs ! nat (int (length xs) + i))
      else Inl IndexError)"

text \<open>\<open>sep.join(xs)\<close>, and \<open>s.replace(a, b)\<close> for one-character \<open>a\<close> and \<open>b\<close>.\<close>

fun join :: "string \<Rightarrow> string list \<Rightarrow> string" where
  "join sep [] = []"
| "join sep [x] = x"
| "join sep (x # y # ys) = x @ sep @ join sep (y # ys)"

definition replace_char :: "char \<Rightarrow> char \<Rightarrow> string \<Rightarrow> string" where
  "replace_char a b s = map (\<lambda>c. if c = a then b else c) s"

text \<open>
  The standard library is a parameter of the model: \<open>json.loads\<close> (\<open>None\<close> when it
  raises \<open>JSONDecodeError\<close>), \<open>"{}".format\<close> on a decoded JSON value, and \<open>float\<close>
  on a string (\<open>None\<close> when it raises \<open>ValueError\<close>).
\<close>

datatype json =
  JNull | JBool bool | JNum real | JStr string | JArr "json list" | JObj "(string \<times> json) list"

record pylib =
  json_loads :: "string \<Rightarrow> json option"
  py_format :: "json \<Rightarrow> string"
  py_float :: "string \<Rightarrow> real option"

text \<open>Iterating a decoded JSON value: a list gives its elements, a dict its keys, a
  string its characters; anything else is not iterable.\<close>

fun py_iter :: "json \<Rightarrow> json list option" where
  "py_iter (JArr xs) = Some xs"
| "py_iter (JObj kvs) = Some (map (\<lambda>kv. JStr (fst kv)) kvs)"
| "py_iter (JStr s) = Some (map (\<lambda>c. JStr [c]) s)"
| "py_iter _ = None"

subsection \<open>System actions\<close>

text \<open>
  Modelled from the spec: class \<open>SysAct\<close> (utils/sysact.py) is not among the source
  files. A system action is a tag (unset in a fresh action) and an ordered mapping
  from slot names to the values added for the slot; \<open>add_value\<close> creates the slot when
  it is new and appends the value unless the value is \<open>None\<close>; \<open>get_values\<close> of an
  absent slot is the empty list. A value is a string, or the list of values of a
  constraint.
\<close>

datatype pyval = Str string | StrList "string list"

record SysAct =
  type :: "SysActionType option"
  slot_values :: "(string \<times> pyval list) list"

definition SysAct_init :: SysAct where
  "SysAct_init = \<lparr>type = None, slot_values = []\<rparr>"

definition add_value :: "string \<Rightarrow> pyval option \<Rightarrow> SysAct \<Rightarrow> SysAct" where
  "add_value slot val sys_act =
     (let sv = (if slot \<in> set (map fst (slot_values sys_act)) then slot_values sys_act
                else slot_values sys_act @ [(slot, [])])
      in case val of
           None \<Rightarrow> sys_act\<lparr>slot_values := sv\<rparr>
         | Some v \<Rightarrow> sys_act\<lparr>slot_values := AList.map_entry slot (\<lambda>vs. vs @ [v]) sv\<rparr>)"

definition get_values :: "string \<Rightarrow> SysAct \<Rightarrow> pyval list" where
  "get_values slot sys_act =
     (case map_of (slot_values sys_act) slot of None \<Rightarrow> [] | Some vs \<Rightarrow> vs)"

subsection \<open>Belief state, domain and policy object\<close>

text \<open>
  Modelled from the spec: class \<open>BeliefState\<close> (utils/beliefstate.py) is not among
  the source files. It holds the user actions of the turn, the informs (slot to
  value to confidence score), the requests (slot to score) and the scalar fields of
  the auxiliary flows. Scores are only compared, never computed with. The user
  actions are kept as a list, as \<open>_remove_gen_actions\<close> names them; a set of actions
  is a list without repetition, on which \<open>remove\<close> and \<open>in\<close> do the same.
\<close>

record BeliefState =
  user_acts :: "UserActionType list"
  informs :: "(string \<times> (string \<times> real) list) list"
  requests :: "(string \<times> real) list"
  given_rating :: string
  review :: string
  start_point :: string
  distance_manner :: string
  req_openingday :: string
  req_manner :: string

text \<open>A result row of the store: column name to value, \<open>None\<close> for a null.\<close>

type_synonym row = "(string \<times> string option) list"

text \<open>The mutations the policy sends to the store, in the order sent.\<close>

datatype db_call =
    EnterRating real "string option"
  | EnterReview string "string option"

text \<open>
  The domain (utils/domain/jsonlookupdomain.py) is external: its operations are
  parameters. The store's content is determined by the mutations sent so far, so
  every query takes that history.
\<close>

record JSONLookupDomain =
  get_primary_key :: string
  get_system_requestable_slots :: "string list"
  get_possible_values :: "string \<Rightarrow> string list"
  find_entities :: "db_call list \<Rightarrow> (string \<times> string list) list \<Rightarrow> row list"
  find_info_about_entity :: "db_call list \<Rightarrow> string \<Rightarrow> (string \<times> real) list \<Rightarrow> row list"
  distance_duration ::
    "db_call list \<Rightarrow> string \<Rightarrow> string option \<Rightarrow> string \<Rightarrow> string option \<times> string option"
  query_opening_info :: "db_call list \<Rightarrow> string \<Rightarrow> string option \<Rightarrow> string"
  query_manner_info :: "db_call list \<Rightarrow> string \<Rightarrow> string option \<Rightarrow> string"

text \<open>
  The fields of the policy object. \<open>__init__\<close> does not set \<open>turns\<close> (only
  \<open>dialog_start\<close> does), so it is optional; \<open>db_calls\<close> records the calls of
  \<open>enter_rating\<close> and \<open>enter_review\<close>. Logging and clearing the terminal are left out.
\<close>

record HandcraftedPolicy =
  first_turn :: bool
  current_suggestions :: "row list"
  s_index :: int
  domain_key :: string
  max_turns :: int
  turns :: "int option"
  db_calls :: "db_call list"

definition HandcraftedPolicy_init :: "JSONLookupDomain \<Rightarrow> int \<Rightarrow> HandcraftedPolicy" where
  "HandcraftedPolicy_init domain mt =
     \<lparr>first_turn = True, current_suggestions = [], s_index = 0,
      domain_key = get_primary_key domain, max_turns = mt, turns = None, db_calls = []\<rparr>"

definition dialog_start :: "HandcraftedPolicy \<Rightarrow> HandcraftedPolicy" where
  "dialog_start self =
     self\<lparr>turns := Some 0, first_turn := True, current_suggestions := [], s_index := 0\<rparr>"

text \<open>What the policy reports besides the action (the dict \<open>sys_state\<close>).\<close>

record sys_state =
  last_act :: "SysAct option"
  lastRequestSlot :: "string option"
  lastInformedPrimKeyVal :: "pyval option"

definition sys_state_empty :: sys_state where
  "sys_state_empty = \<lparr>last_act = None, lastRequestSlot = None, lastInformedPrimKeyVal = None\<rparr>"

text \<open>Truth value of a name that may be \<open>None\<close> or the empty string.\<close>

definition truthy :: "string option \<Rightarrow> bool" where
  "truthy name = (case name of None \<Rightarrow> False | Some s \<Rightarrow> s \<noteq> [])"

subsection \<open>Filler suppression: \<open>_remove_gen_actions\<close> (lines 292-315)\<close>

text \<open>
  The loop removes one filler per iteration with \<open>list.remove\<close>, which deletes the
  first occurrence; it runs while more than one action is left and stops at the first
  iteration that finds none of Thanks, Bad, Hello.
\<close>

function remove_gen_actions :: "UserActionType list \<Rightarrow> UserActionType list" where
  "remove_gen_actions act_types_lst =
     (if length act_types_lst > 1 then
        if Thanks \<in> set act_types_lst then
          remove_gen_actions (remove1 Thanks act_types_lst)
        else if UserActionType.Bad \<in> set act_types_lst then
          remove_gen_actions (remove1 UserActionType.Bad act_types_lst)
        else if Hello \<in> set act_types_lst then
          remove_gen_actions (remove1 Hello act_types_lst)
        else act_types_lst
      else act_types_lst)"
  by pat_completeness auto
termination
  by (relation "measure length") (auto simp: length_remove1)

declare remove_gen_actions.simps [simp del]

subsection \<open>Focus and constraints: \<open>_get_name\<close>, \<open>_get_constraints\<close>, \<open>_get_open_slot\<close>\<close>

text \<open>
  \<open>_get_name\<close> (lines 409-436). \<open>sorted(..., key=score, reverse=True)\<close> is a stable
  sort by descending score, that is a stable ascending sort by the negated score.
\<close>

definition get_name ::
  "JSONLookupDomain \<Rightarrow> HandcraftedPolicy \<Rightarrow> BeliefState \<Rightarrow> error + string option" where
  "get_name domain self beliefstate =
     (let prim_key = get_primary_key domain in
      case map_of (informs beliefstate) prim_key of
        Some possible_names \<Rightarrow>
          if possible_names = [] then Inr None
          else Inr (Some (fst (hd (sort_key (\<lambda>kv. - snd kv) possible_names))))
      | None \<Rightarrow>
          if s_index self < int (length (current_suggestions self)) then
            (case py_index (current_suggestions self) (s_index self) of
               Inl e \<Rightarrow> Inl e
             | Inr current_suggestion \<Rightarrow>
                 if current_suggestion \<noteq> [] then
                   (case map_of current_suggestion (domain_key self) of
                      None \<Rightarrow> Inl KeyError
                    | Some name \<Rightarrow> Inr name)
                 else Inr None)
          else Inr None)"

text \<open>
  \<open>_get_constraints\<close> (lines 438-464) returns the pair \<open>(slots, dontcare)\<close>: a slot
  enters \<open>slots\<close> when its first value is appended, so a slot informed with no value
  is in neither component.
\<close>

definition get_constraints ::
  "BeliefState \<Rightarrow> (string \<times> string list) list \<times> string list" where
  "get_constraints beliefstate =
     (let dontcare = [slot. (slot, vals) \<leftarrow> informs beliefstate, ''dontcare'' \<in> set (map fst vals)];
          slots = [(slot, map fst vals). (slot, vals) \<leftarrow> informs beliefstate,
                     slot \<notin> set dontcare, vals \<noteq> []]
      in (slots, dontcare))"

text \<open>\<open>_get_open_slot\<close> (lines 466-483).\<close>

definition get_open_slot :: "JSONLookupDomain \<Rightarrow> BeliefState \<Rightarrow> string option" where
  "get_open_slot domain beliefstate =
     (let filled_slots = fst (get_constraints beliefstate);
          requestable_slots = get_system_requestable_slots domain
      in find (\<lambda>slot. slot \<notin> set (map fst filled_slots)) requestable_slots)"

subsection \<open>Writing to the store: \<open>_modfiy_db\<close> (lines 317-331)\<close>

definition modfiy_db ::
  "pylib \<Rightarrow> JSONLookupDomain \<Rightarrow> HandcraftedPolicy \<Rightarrow> BeliefState \<Rightarrow> error + HandcraftedPolicy" where
  "modfiy_db lib domain self beliefstate =
     (case (if given_rating beliefstate \<noteq> [] then
              (case py_float lib (given_rating beliefstate) of
                 None \<Rightarrow> Inl ValueError
               | Some rating \<Rightarrow>
                   (case get_name domain self beliefstate of
                      Inl e \<Rightarrow> Inl e
                    | Inr name \<Rightarrow>
                        Inr (self\<lparr>db_calls := db_calls self @ [EnterRating rating name]\<rparr>)))
            else Inr self) of
        Inl e \<Rightarrow> Inl e
      | Inr self1 \<Rightarrow>
          if review beliefstate \<noteq> [] then
            (let review1 = replace_char (CHR 0x22) (CHR '' '')
                             (replace_char (CHR 0x27) (CHR '' '') (review beliefstate))
             in case get_name domain self1 beliefstate of
                  Inl e \<Rightarrow> Inl e
                | Inr name \<Rightarrow>
                    Inr (self1\<lparr>db_calls := db_calls self1 @ [EnterReview review1 name]\<rparr>))
          else Inr self1)"

subsection \<open>Next-question selection: \<open>_gen_next_request\<close>, \<open>_highest_info_gain\<close>\<close>

type_synonym temp = "(string \<times> string option list) list"

text \<open>
  \<open>_highest_info_gain\<close> (lines 607-632). The loop fills the dict \<open>diffs\<close>; unpacking
  \<open>val1, val2\<close> raises unless the slot has exactly two possible values, and \<open>temp[slot]\<close>
  raises on a slot that is no column of the result.
\<close>

fun info_gain_diffs ::
  "JSONLookupDomain \<Rightarrow> temp \<Rightarrow> string list \<Rightarrow> (string \<times> int) list \<Rightarrow> error + (string \<times> int) list" where
  "info_gain_diffs domain temp [] diffs1 = Inr diffs1"
| "info_gain_diffs domain temp (slot # bin_slots) diffs1 =
     (case get_possible_values domain slot of
        [val1, val2] \<Rightarrow>
          (case map_of temp slot of
             None \<Rightarrow> Inl KeyError
           | Some vals \<Rightarrow>
               info_gain_diffs domain temp bin_slots
                 (if Some val1 \<in> set vals \<and> Some val2 \<in> set vals then
                    AList.update slot
                      \<bar>int (count_list vals (Some val1)) - int (count_list vals (Some val2))\<bar> diffs1
                  else diffs1))
      | _ \<Rightarrow> Inl ValueError)"

definition highest_info_gain :: "JSONLookupDomain \<Rightarrow> string list \<Rightarrow> temp \<Rightarrow> error + string" where
  "highest_info_gain domain bin_slots temp =
     (case info_gain_diffs domain temp bin_slots [] of
        Inl e \<Rightarrow> Inl e
      | Inr diffs1 \<Rightarrow>
          if diffs1 = [] then Inr []
          else Inr (fst (hd (sort_key snd diffs1))))"

text \<open>The scan of the non-binary slots in \<open>_gen_next_request\<close> (lines 601-603);
  \<open>len(set(xs))\<close> is the number of distinct elements.\<close>

fun first_differing :: "temp \<Rightarrow> string list \<Rightarrow> error + string option" where
  "first_differing temp [] = Inr None"
| "first_differing temp (slot # non_bin_slots) =
     (case map_of temp slot of
        None \<Rightarrow> Inl KeyError
      | Some vals \<Rightarrow>
          if length (remdups vals) > 1 then Inr (Some slot)
          else first_differing temp non_bin_slots)"

text \<open>\<open>_gen_next_request\<close> (lines 578-605).\<close>

definition gen_next_request ::
  "JSONLookupDomain \<Rightarrow> temp \<Rightarrow> BeliefState \<Rightarrow> error + string" where
  "gen_next_request domain temp belief_state =
     (let req_slots0 = get_system_requestable_slots domain;
          constraints = fst (get_constraints belief_state);
          dontcare = snd (get_constraints belief_state);
          req_slots = [s \<leftarrow> req_slots0. s \<notin> set dontcare \<and> s \<notin> set (map fst constraints)];
          bin_slots = [slot \<leftarrow> req_slots. length (get_possible_values domain slot) = 2];
          non_bin_slots = [slot \<leftarrow> req_slots. slot \<notin> set bin_slots]
      in case first_differing temp non_bin_slots of
           Inl e \<Rightarrow> Inl e
         | Inr (Some slot) \<Rightarrow> Inr slot
         | Inr None \<Rightarrow> highest_info_gain domain bin_slots temp)"

subsection \<open>Request or inform: \<open>_raw_action\<close> (lines 544-576)\<close>

text \<open>The two nested loops that gather the columns of the result; \<open>temp[key]\<close> raises
  on a key that the first row does not have.\<close>

fun temp_add_row :: "string \<Rightarrow> row \<Rightarrow> temp \<Rightarrow> error + temp" where
  "temp_add_row dk [] temp = Inr temp"
| "temp_add_row dk ((key, v) # result) temp =
     (if key \<noteq> dk then
        (case map_of temp key of
           None \<Rightarrow> Inl KeyError
         | Some vals \<Rightarrow> temp_add_row dk result (AList.update key (vals @ [v]) temp))
      else temp_add_row dk result temp)"

fun temp_add_rows :: "string \<Rightarrow> row list \<Rightarrow> temp \<Rightarrow> error + temp" where
  "temp_add_rows dk [] temp = Inr temp"
| "temp_add_rows dk (result # q_res) temp =
     (case temp_add_row dk result temp of
        Inl e \<Rightarrow> Inl e
      | Inr temp1 \<Rightarrow> temp_add_rows dk q_res temp1)"

definition raw_action ::
  "JSONLookupDomain \<Rightarrow> HandcraftedPolicy \<Rightarrow> row list \<Rightarrow> BeliefState \<Rightarrow> error + SysAct" where
  "raw_action domain self q_res beliefstate =
     (let sys_act = SysAct_init in
      if length q_res > 1 \<and> requests beliefstate = [] then
        (case temp_add_rows (domain_key self) q_res (map (\<lambda>key. (key, [])) (map fst (hd q_res))) of
           Inl e \<Rightarrow> Inl e
         | Inr temp \<Rightarrow>
             (case gen_next_request domain temp beliefstate of
                Inl e \<Rightarrow> Inl e
              | Inr next_req \<Rightarrow>
                  if next_req \<noteq> [] then
                    Inr (add_value next_req None (sys_act\<lparr>type := Some Request\<rparr>))
                  else Inr (sys_act\<lparr>type := Some InformByName\<rparr>)))
      else Inr (sys_act\<lparr>type := Some InformByName\<rparr>))"

subsection \<open>The inform builder (lines 634-780)\<close>

text \<open>The loop \<open>for c in constraints: sys_act.add_value(c, constraints[c])\<close>: the
  list of a constraint's values is added as one value.\<close>

definition add_constraints :: "(string \<times> string list) list \<Rightarrow> SysAct \<Rightarrow> SysAct" where
  "add_constraints constraints sys_act =
     fold (\<lambda>c sa. add_value (fst c) (Some (StrList (snd c))) sa) constraints sys_act"

text \<open>The formatting rules of \<open>_convert_inform_by_primkey\<close> (lines 676-696), in the
  order of the source; each rule looks at the value the rules before it left.\<close>

definition format_opening_hours :: "pylib \<Rightarrow> string \<Rightarrow> error + string" where
  "format_opening_hours lib res =
     (case json_loads lib res of
        None \<Rightarrow> Inl JSONDecodeError
      | Some (JObj opening_hours) \<Rightarrow>
          Inr ([CHR 0x0A] @ join [CHR 0x0A]
                 (map (\<lambda>kv. fst kv @ '': '' @ py_format lib (snd kv)) opening_hours))
      | Some _ \<Rightarrow> Inl AttributeError)"

definition format_reviews :: "pylib \<Rightarrow> string \<Rightarrow> error + string" where
  "format_reviews lib res =
     (case json_loads lib (replace_char (CHR 0x27) (CHR 0x22) res) of
        None \<Rightarrow> Inl JSONDecodeError
      | Some reviews \<Rightarrow>
          (case py_iter reviews of
             None \<Rightarrow> Inl TypeError
           | Some revs \<Rightarrow> Inr ([CHR 0x0A] @ join [CHR 0x0A] (map (py_format lib) revs))))"

definition format_manner :: "pylib \<Rightarrow> string \<Rightarrow> error + string" where
  "format_manner lib res =
     (case json_loads lib res of
        None \<Rightarrow> Inl JSONDecodeError
      | Some manner \<Rightarrow>
          (case py_iter manner of
             None \<Rightarrow> Inl TypeError
           | Some mans \<Rightarrow> Inr (join '', '' (map (py_format lib) mans))))"

definition primkey_value :: "pylib \<Rightarrow> string \<Rightarrow> string option \<Rightarrow> error + string" where
  "primkey_value lib k v =
     (let res0 = (case v of
                    None \<Rightarrow> ''not available''
                  | Some s \<Rightarrow> if s \<noteq> [] \<and> s \<noteq> ''None'' then s else ''not available'')
      in case (if k = ''opening_hours'' \<and> res0 \<noteq> ''not available''
               then format_opening_hours lib res0 else Inr res0) of
           Inl e \<Rightarrow> Inl e
         | Inr res1 \<Rightarrow>
        (case (if k = ''reviews'' \<and> res1 \<noteq> ''not available''
               then format_reviews lib res1 else Inr res1) of
           Inl e \<Rightarrow> Inl e
         | Inr res2 \<Rightarrow>
        (let res3 = (if k = ''parking_lot'' \<and> res2 \<noteq> ''not available'' then
                       (let r = (if res2 = ''0'' then ''no'' else res2)
                        in if r = ''1'' then ''a'' else r)
                     else res2)
         in case (if k = ''manner'' \<and> res3 \<noteq> ''not available''
                  then format_manner lib res3 else Inr res3) of
              Inl e \<Rightarrow> Inl e
            | Inr res4 \<Rightarrow>
                Inr (if k = ''description'' \<and> res4 \<noteq> ''not available''
                     then CHR 0x0A # res4 else res4))))"

fun primkey_add_keys :: "pylib \<Rightarrow> row \<Rightarrow> string list \<Rightarrow> SysAct \<Rightarrow> error + SysAct" where
  "primkey_add_keys lib result [] sys_act = Inr sys_act"
| "primkey_add_keys lib result (k # keys) sys_act =
     (case map_of result k of
        None \<Rightarrow> Inl KeyError
      | Some v \<Rightarrow>
          (case primkey_value lib k v of
             Inl e \<Rightarrow> Inl e
           | Inr res \<Rightarrow> primkey_add_keys lib result keys (add_value k (Some (Str res)) sys_act)))"

text \<open>\<open>_convert_inform_by_primkey\<close> (lines 657-703).\<close>

definition convert_inform_by_primkey ::
  "pylib \<Rightarrow> JSONLookupDomain \<Rightarrow> HandcraftedPolicy \<Rightarrow> row list \<Rightarrow> SysAct \<Rightarrow> BeliefState
   \<Rightarrow> error + SysAct" where
  "convert_inform_by_primkey lib domain self q_results sys_act beliefstate =
     (let sys_act0 = sys_act\<lparr>type := Some InformByName\<rparr> in
      if q_results \<noteq> [] then
        (let result = hd q_results;
             keys = take 4 (map fst result)
         in case primkey_add_keys lib result keys sys_act0 of
              Inl e \<Rightarrow> Inl e
            | Inr sys_act1 \<Rightarrow>
                if domain_key self \<notin> set keys then
                  (case get_name domain self beliefstate of
                     Inl e \<Rightarrow> Inl e
                   | Inr name \<Rightarrow> Inr (add_value (domain_key self) (map_option Str name) sys_act1))
                else Inr sys_act1)
      else Inr (add_value (domain_key self) (Some (Str ''none'')) sys_act0))"

text \<open>\<open>_convert_inform_by_alternatives\<close> (lines 705-749).\<close>

definition convert_inform_by_alternatives ::
  "JSONLookupDomain \<Rightarrow> HandcraftedPolicy \<Rightarrow> SysAct \<Rightarrow> row list \<Rightarrow> BeliefState
   \<Rightarrow> error + SysAct \<times> HandcraftedPolicy" where
  "convert_inform_by_alternatives domain self sys_act q_res beliefstate =
     (let self1 = (if q_res \<noteq> [] \<and> current_suggestions self = []
                   then self\<lparr>current_suggestions := q_res, s_index := - 1\<rparr> else self);
          self2 = self1\<lparr>s_index := s_index self1 + 1\<rparr>;
          constraints = fst (get_constraints beliefstate)
      in if s_index self2 \<le> int (length (current_suggestions self2)) - 1 then
           (let sys_act1 = sys_act\<lparr>type := Some (if s_index self2 = 0 then InformByName
                                                   else InformByAlternatives)\<rparr>
            in case py_index (current_suggestions self2) (s_index self2) of
                 Inl e \<Rightarrow> Inl e
               | Inr result \<Rightarrow>
                   (case map_of result (domain_key self2) of
                      None \<Rightarrow> Inl KeyError
                    | Some v \<Rightarrow>
                        Inr (add_constraints constraints
                               (add_value (domain_key self2) (map_option Str v) sys_act1),
                             self2)))
         else
           Inr (add_constraints constraints
                  (add_value (get_primary_key domain) (Some (Str ''none''))
                     (sys_act\<lparr>type := Some InformByAlternatives\<rparr>)),
                self2\<lparr>s_index := int (length (current_suggestions self2)) - 1\<rparr>))"

text \<open>\<open>_convert_inform_by_constraints\<close> (lines 751-780).\<close>

definition convert_inform_by_constraints ::
  "HandcraftedPolicy \<Rightarrow> row list \<Rightarrow> SysAct \<Rightarrow> BeliefState
   \<Rightarrow> error + SysAct \<times> HandcraftedPolicy" where
  "convert_inform_by_constraints self q_results sys_act beliefstate =
     (let constraints = fst (get_constraints beliefstate) in
      if q_results \<noteq> [] then
        (let self1 = self\<lparr>current_suggestions := q_results, s_index := 0\<rparr>;
             result = hd (current_suggestions self1)
         in case map_of result (domain_key self1) of
              None \<Rightarrow> Inl KeyError
            | Some v \<Rightarrow>
                Inr (add_constraints constraints
                       ((add_value (domain_key self1) (map_option Str v) sys_act)
                          \<lparr>type := Some InformByName\<rparr>),
                     self1))
      else
        Inr (add_constraints constraints
               ((add_value (domain_key self) (Some (Str ''none'')) sys_act)
                  \<lparr>type := Some InformByName\<rparr>),
             self))"

text \<open>\<open>_convert_inform\<close> (lines 634-655).\<close>

definition convert_inform ::
  "pylib \<Rightarrow> JSONLookupDomain \<Rightarrow> HandcraftedPolicy \<Rightarrow> row list \<Rightarrow> SysAct \<Rightarrow> BeliefState
   \<Rightarrow> error + SysAct \<times> HandcraftedPolicy" where
  "convert_inform lib domain self q_results sys_act beliefstate =
     (if requests beliefstate \<noteq> [] \<or> map_of (informs beliefstate) (get_primary_key domain) \<noteq> None then
        (case convert_inform_by_primkey lib domain self q_results sys_act beliefstate of
           Inl e \<Rightarrow> Inl e
         | Inr sys_act1 \<Rightarrow> Inr (sys_act1, self))
      else if RequestAlternatives \<in> set (user_acts beliefstate) then
        convert_inform_by_alternatives domain self sys_act q_results beliefstate
      else convert_inform_by_constraints self q_results sys_act beliefstate)"

subsection \<open>The domain-specific decision: \<open>_query_db\<close>, \<open>_next_action\<close>\<close>

text \<open>\<open>_query_db\<close> (lines 384-407).\<close>

definition query_db ::
  "JSONLookupDomain \<Rightarrow> HandcraftedPolicy \<Rightarrow> BeliefState \<Rightarrow> error + row list" where
  "query_db domain self beliefstate =
     (case get_name domain self beliefstate of
        Inl e \<Rightarrow> Inl e
      | Inr name \<Rightarrow>
          (case name of
             Some n \<Rightarrow>
               if n \<noteq> [] \<and> requests beliefstate \<noteq> [] then
                 Inr (find_info_about_entity domain (db_calls self) n (requests beliefstate))
               else Inr (find_entities domain (db_calls self) (fst (get_constraints beliefstate)))
           | None \<Rightarrow> Inr (find_entities domain (db_calls self) (fst (get_constraints beliefstate)))))"

text \<open>
  \<open>_next_action\<close> (lines 485-542). The first condition is
  \<open>Bad in user_acts or (requests and not _get_name())\<close>, evaluated left to right, so
  \<open>_get_name\<close> runs (and may raise) only when there are requests and no Bad.
\<close>

definition next_action ::
  "pylib \<Rightarrow> JSONLookupDomain \<Rightarrow> HandcraftedPolicy \<Rightarrow> BeliefState
   \<Rightarrow> error + (SysAct \<times> sys_state) \<times> HandcraftedPolicy" where
  "next_action lib domain self beliefstate =
     (let bad_act = SysAct_init\<lparr>type := Some SysActionType.Bad\<rparr> in
      case (if UserActionType.Bad \<in> set (user_acts beliefstate) then Inr True
            else if requests beliefstate \<noteq> [] then
              (case get_name domain self beliefstate of
                 Inl e \<Rightarrow> Inl e
               | Inr name \<Rightarrow> Inr (\<not> truthy name))
            else Inr False) of
        Inl e \<Rightarrow> Inl e
      | Inr True \<Rightarrow> Inr ((bad_act, sys_state_empty\<lparr>last_act := Some bad_act\<rparr>), self)
      | Inr False \<Rightarrow>
          if RequestAlternatives \<in> set (user_acts beliefstate)
             \<and> fst (get_constraints beliefstate) = [] then
            Inr ((bad_act, sys_state_empty\<lparr>last_act := Some bad_act\<rparr>), self)
          else if map_of (informs beliefstate) (get_primary_key domain) \<noteq> None
                  \<and> requests beliefstate = [] then
            (case get_name domain self beliefstate of
               Inl e \<Rightarrow> Inl e
             | Inr name \<Rightarrow>
                 (let sys_act = add_value (get_primary_key domain) (map_option Str name)
                                  (SysAct_init\<lparr>type := Some InformByName\<rparr>)
                  in Inr ((sys_act, sys_state_empty\<lparr>last_act := Some sys_act\<rparr>), self)))
          else
            (case query_db domain self beliefstate of
               Inl e \<Rightarrow> Inl e
             | Inr results \<Rightarrow>
                 (case raw_action domain self results beliefstate of
                    Inl e \<Rightarrow> Inl e
                  | Inr sys_act \<Rightarrow>
                      if type sys_act = Some SysActionType.Request then
                        Inr ((sys_act,
                              sys_state_empty\<lparr>lastRequestSlot :=
                                  (case map fst (slot_values sys_act) of
                                     [] \<Rightarrow> None | k # _ \<Rightarrow> Some k),
                                last_act := Some sys_act\<rparr>), self)
                      else if type sys_act = Some InformByName then
                        (case convert_inform lib domain self results sys_act beliefstate of
                           Inl e \<Rightarrow> Inl e
                         | Inr (sys_act1, self1) \<Rightarrow>
                             (let vals = get_values (get_primary_key domain) sys_act1 in
                              if vals \<noteq> [] then
                                Inr ((sys_act1,
                                      sys_state_empty\<lparr>lastInformedPrimKeyVal := Some (hd vals),
                                        last_act := Some sys_act1\<rparr>), self1)
                              else
                                (let sys_act2 = add_value (get_primary_key domain)
                                                  (Some (Str ''none'')) sys_act1
                                 in Inr ((sys_act2, sys_state_empty\<lparr>last_act := Some sys_act2\<rparr>),
                                         self1))))
                      else Inr ((sys_act, sys_state_empty\<lparr>last_act := Some sys_act\<rparr>), self))))"

subsection \<open>The turn dispatcher: \<open>choose_sys_act\<close> (lines 79-290)\<close>

text \<open>
  Each branch of the \<open>if\<close>/\<open>elif\<close> chain is a definition of its own, named after the
  user action it handles; a branch returns the action, the dict \<open>sys_state\<close> as the
  branch leaves it, and the policy object. The fallback of every branch that needs a
  focused entity is a request for the slot \<open>name\<close>.
\<close>

type_synonym branch_result = "error + SysAct \<times> sys_state \<times> HandcraftedPolicy"

definition request_name :: SysAct where
  "request_name = add_value ''name'' None (SysAct_init\<lparr>type := Some SysActionType.Request\<rparr>)"

text \<open>GiveRating (lines 154-168).\<close>

definition act_GiveRating ::
  "pylib \<Rightarrow> JSONLookupDomain \<Rightarrow> HandcraftedPolicy \<Rightarrow> BeliefState \<Rightarrow> branch_result" where
  "act_GiveRating lib domain self beliefstate =
     (case get_name domain self beliefstate of
        Inl e \<Rightarrow> Inl e
      | Inr name \<Rightarrow>
          if truthy name then
            (let sys_act = (add_value ''ratings_givable'' (Some (Str (given_rating beliefstate)))
                              (add_value (get_primary_key domain) (map_option Str name) SysAct_init))
                           \<lparr>type := Some ConfirmGiveRating\<rparr>
             in case modfiy_db lib domain self beliefstate of
                  Inl e \<Rightarrow> Inl e
                | Inr self1 \<Rightarrow> Inr (sys_act, sys_state_empty, self1))
          else Inr (request_name, sys_state_empty, self))"

text \<open>WriteReview (lines 170-181).\<close>

definition act_WriteReview ::
  "JSONLookupDomain \<Rightarrow> HandcraftedPolicy \<Rightarrow> BeliefState \<Rightarrow> branch_result" where
  "act_WriteReview domain self beliefstate =
     (case get_name domain self beliefstate of
        Inl e \<Rightarrow> Inl e
      | Inr name \<Rightarrow>
          if truthy name then
            (let sys_act = (add_value (get_primary_key domain) (map_option Str name) SysAct_init)
                           \<lparr>type := Some AskWriteReview\<rparr>
             in Inr (sys_act, sys_state_empty\<lparr>last_act := Some sys_act\<rparr>, self))
          else Inr (request_name, sys_state_empty, self))"

text \<open>WrittenReview (lines 183-190): no check that an entity is in focus.\<close>

definition act_WrittenReview ::
  "pylib \<Rightarrow> JSONLookupDomain \<Rightarrow> HandcraftedPolicy \<Rightarrow> BeliefState \<Rightarrow> branch_result" where
  "act_WrittenReview lib domain self beliefstate =
     (case get_name domain self beliefstate of
        Inl e \<Rightarrow> Inl e
      | Inr name \<Rightarrow>
          (let sys_act = (add_value ''review'' (Some (Str (review beliefstate)))
                            (add_value (get_primary_key domain) (map_option Str name) SysAct_init))
                         \<lparr>type := Some ConfirmWriteReview\<rparr>
           in case modfiy_db lib domain self beliefstate of
                Inl e \<Rightarrow> Inl e
              | Inr self1 \<Rightarrow> Inr (sys_act, sys_state_empty, self1)))"

text \<open>AskDistance (lines 192-201).\<close>

definition act_AskDistance ::
  "JSONLookupDomain \<Rightarrow> HandcraftedPolicy \<Rightarrow> BeliefState \<Rightarrow> branch_result" where
  "act_AskDistance domain self beliefstate =
     (case get_name domain self beliefstate of
        Inl e \<Rightarrow> Inl e
      | Inr name \<Rightarrow>
          if truthy name then
            (let sys_act = SysAct_init\<lparr>type := Some AskStartPoint\<rparr>
             in Inr (sys_act, sys_state_empty\<lparr>last_act := Some sys_act\<rparr>, self))
          else Inr (request_name, sys_state_empty, self))"

text \<open>InformStartPoint (lines 203-208).\<close>

definition act_InformStartPoint :: "HandcraftedPolicy \<Rightarrow> branch_result" where
  "act_InformStartPoint self =
     (let sys_act = SysAct_init\<lparr>type := Some AskDistanceManner\<rparr>
      in Inr (sys_act, sys_state_empty\<lparr>last_act := Some sys_act\<rparr>, self))"

text \<open>InformDistanceManner (lines 210-229), with \<open>_calculate_distance_duration\<close>
  (lines 344-356).\<close>

definition act_InformDistanceManner ::
  "JSONLookupDomain \<Rightarrow> HandcraftedPolicy \<Rightarrow> BeliefState \<Rightarrow> branch_result" where
  "act_InformDistanceManner domain self beliefstate =
     (case get_name domain self beliefstate of
        Inl e \<Rightarrow> Inl e
      | Inr name \<Rightarrow>
          (let dd = distance_duration domain (db_calls self) (start_point beliefstate) name
                      (distance_manner beliefstate);
               distance = fst dd;
               duration = snd dd
           in if distance = Some ''BadTravelManner'' \<and> duration = Some ''BadTravelManner'' then
                (let sys_act = SysAct_init\<lparr>type := Some BadTravelManner\<rparr>
                 in Inr (sys_act, sys_state_empty\<lparr>last_act := Some sys_act\<rparr>, self))
              else if distance = None \<and> duration = None then
                (let sys_act = SysAct_init\<lparr>type := Some BadAddress\<rparr>
                 in Inr (sys_act, sys_state_empty\<lparr>last_act := Some sys_act\<rparr>, self))
              else
                Inr ((add_value ''duration'' (map_option Str duration)
                       (add_value ''distance'' (map_option Str distance)
                         (add_value ''distance_manner'' (Some (Str (distance_manner beliefstate)))
                           (add_value (get_primary_key domain) (map_option Str name) SysAct_init))))
                     \<lparr>type := Some InformDistance\<rparr>, sys_state_empty, self)))"

text \<open>AskOpeningDay (lines 231-244), with \<open>_query_opening_info\<close> (lines 358-369).\<close>

definition act_AskOpeningDay ::
  "JSONLookupDomain \<Rightarrow> HandcraftedPolicy \<Rightarrow> BeliefState \<Rightarrow> branch_result" where
  "act_AskOpeningDay domain self beliefstate =
     (case get_name domain self beliefstate of
        Inl e \<Rightarrow> Inl e
      | Inr name \<Rightarrow>
          if truthy name then
            (let opening_info = query_opening_info domain (db_calls self)
                                  (req_openingday beliefstate) name
             in Inr ((add_value ''opening_info'' (Some (Str opening_info))
                       (add_value ''opening_day'' (Some (Str (req_openingday beliefstate)))
                         (add_value (get_primary_key domain) (map_option Str name) SysAct_init)))
                     \<lparr>type := Some InformOpeningDay\<rparr>, sys_state_empty, self))
          else Inr (request_name, sys_state_empty, self))"

text \<open>AskManner (lines 246-258), with \<open>_query_manner_info\<close> (lines 371-382).\<close>

definition act_AskManner ::
  "JSONLookupDomain \<Rightarrow> HandcraftedPolicy \<Rightarrow> BeliefState \<Rightarrow> branch_result" where
  "act_AskManner domain self beliefstate =
     (case get_name domain self beliefstate of
        Inl e \<Rightarrow> Inl e
      | Inr name \<Rightarrow>
          if truthy name then
            (let manner_info = query_manner_info domain (db_calls self)
                                 (req_manner beliefstate) name
             in Inr ((add_value ''manner_info'' (Some (Str manner_info))
                       (add_value (get_primary_key domain) (map_option Str name) SysAct_init))
                     \<lparr>type := Some InformManner\<rparr>, sys_state_empty, self))
          else Inr (request_name, sys_state_empty, self))"

text \<open>The second branch for Hello or SelectDomain (lines 264-282): request the open
  slot if \<open>_get_open_slot\<close> returns a non-empty name, else ask for more; then restart
  the dialogue on SelectDomain and clear the first-turn flag.\<close>

definition act_Hello_request ::
  "JSONLookupDomain \<Rightarrow> HandcraftedPolicy \<Rightarrow> BeliefState \<Rightarrow> branch_result" where
  "act_Hello_request domain self beliefstate =
     (let sys_act =
            (case get_open_slot domain beliefstate of
               Some slot \<Rightarrow>
                 if slot \<noteq> [] then
                   add_value slot None (SysAct_init\<lparr>type := Some SysActionType.Request\<rparr>)
                 else SysAct_init\<lparr>type := Some RequestMore\<rparr>
             | None \<Rightarrow> SysAct_init\<lparr>type := Some RequestMore\<rparr>);
          self1 = (if SelectDomain \<in> set (user_acts beliefstate) then dialog_start self else self)
      in Inr (sys_act, sys_state_empty, self1\<lparr>first_turn := False\<rparr>))"

text \<open>The chain itself (lines 128-285), entered after filler suppression.\<close>

definition choose_sys_act_branch ::
  "pylib \<Rightarrow> JSONLookupDomain \<Rightarrow> HandcraftedPolicy \<Rightarrow> BeliefState \<Rightarrow> branch_result" where
  "choose_sys_act_branch lib domain self beliefstate =
     (let acts = set (user_acts beliefstate) in
           (if UserActionType.Bad \<in> acts then
              Inr (SysAct_init\<lparr>type := Some SysActionType.Bad\<rparr>, sys_state_empty, self)
            else if UserActionType.Bye \<in> acts then
              Inr (SysAct_init\<lparr>type := Some SysActionType.Bye\<rparr>, sys_state_empty, self)
            else if Thanks \<in> acts then
              Inr (SysAct_init\<lparr>type := Some RequestMore\<rparr>, sys_state_empty, self)
            else if NewDialogue \<in> acts then
              Inr (SysAct_init\<lparr>type := Some Welcome\<rparr>, sys_state_empty, dialog_start self)
            else if Hello \<in> acts \<or> SelectDomain \<in> acts then
              Inr (SysAct_init\<lparr>type := Some GuideUser\<rparr>, sys_state_empty, self)
            else if GiveRating \<in> acts then act_GiveRating lib domain self beliefstate
            else if WriteReview \<in> acts then act_WriteReview domain self beliefstate
            else if WrittenReview \<in> acts then act_WrittenReview lib domain self beliefstate
            else if AskDistance \<in> acts then act_AskDistance domain self beliefstate
            else if InformStartPoint \<in> acts then act_InformStartPoint self
            else if InformDistanceManner \<in> acts then
              act_InformDistanceManner domain self beliefstate
            else if AskOpeningDay \<in> acts then act_AskOpeningDay domain self beliefstate
            else if AskManner \<in> acts then act_AskManner domain self beliefstate
            else if NegativeInform \<in> acts then
              Inr (SysAct_init\<lparr>type := Some WhatDoYouWant\<rparr>, sys_state_empty, self)
            else if Hello \<in> acts \<or> SelectDomain \<in> acts then
              act_Hello_request domain self beliefstate
            else
              (case next_action lib domain self beliefstate of
                 Inl e \<Rightarrow> Inl e
               | Inr ((sys_act, sys_state), self1) \<Rightarrow> Inr (sys_act, sys_state, self1))))"

text \<open>The end of \<open>choose_sys_act\<close> (lines 286-290): \<open>last_act\<close> is set unless the
  branch has set it.\<close>

definition choose_sys_act_dispatch ::
  "pylib \<Rightarrow> JSONLookupDomain \<Rightarrow> HandcraftedPolicy \<Rightarrow> BeliefState
   \<Rightarrow> error + (SysAct \<times> sys_state) \<times> HandcraftedPolicy" where
  "choose_sys_act_dispatch lib domain self beliefstate =
     (case choose_sys_act_branch lib domain self beliefstate of
        Inl e \<Rightarrow> Inl e
      | Inr (sys_act, sys_state, self1) \<Rightarrow>
          Inr ((sys_act,
                if last_act sys_state = None then sys_state\<lparr>last_act := Some sys_act\<rparr>
                else sys_state), self1))"

text \<open>
  \<open>choose_sys_act\<close>: the turn counter, the two welcome cases of the first turn, the
  turn budget, filler suppression (which changes the belief state's own list of user
  actions) and the chain.
\<close>

definition choose_sys_act ::
  "pylib \<Rightarrow> JSONLookupDomain \<Rightarrow> HandcraftedPolicy \<Rightarrow> BeliefState
   \<Rightarrow> error + (SysAct \<times> sys_state) \<times> HandcraftedPolicy" where
  "choose_sys_act lib domain self beliefstate =
     (case turns self of
        None \<Rightarrow> Inl AttributeError
      | Some t \<Rightarrow>
          (let self1 = self\<lparr>turns := Some (t + 1)\<rparr>;
               welcome = SysAct_init\<lparr>type := Some Welcome\<rparr>;
               bye = SysAct_init\<lparr>type := Some SysActionType.Bye\<rparr>
           in if first_turn self1 \<and> user_acts beliefstate = [] then
                Inr ((welcome, sys_state_empty\<lparr>last_act := Some welcome\<rparr>),
                     self1\<lparr>first_turn := False\<rparr>)
              else if first_turn self1 \<and> NewDialogue \<in> set (user_acts beliefstate) then
                Inr ((welcome, sys_state_empty\<lparr>last_act := Some welcome\<rparr>),
                     self1\<lparr>first_turn := False\<rparr>)
              else
                (let self2 = (if first_turn self1 then self1\<lparr>first_turn := False\<rparr> else self1)
                 in if t + 1 \<ge> max_turns self2 then
                      Inr ((bye, sys_state_empty\<lparr>last_act := Some bye\<rparr>), self2)
                    else
                      choose_sys_act_dispatch lib domain self2
                        (beliefstate\<lparr>user_acts := remove_gen_actions (user_acts beliefstate)\<rparr>))))"

text \<open>A session: the decisions for the belief states of successive turns, until one
  raises.\<close>

fun run_turns ::
  "pylib \<Rightarrow> JSONLookupDomain \<Rightarrow> HandcraftedPolicy \<Rightarrow> BeliefState list \<Rightarrow> (error + SysAct) list" where
  "run_turns lib domain self [] = []"
| "run_turns lib domain self (beliefstate # rest) =
     (case choose_sys_act lib domain self beliefstate of
        Inl e \<Rightarrow> [Inl e]
      | Inr ((sys_act, sys_state), self1) \<Rightarrow> Inr sys_act # run_turns lib domain self1 rest)"

text \<open>The policy object after the decisions for the belief states of successive
  turns.\<close>

fun policy_after ::
  "pylib \<Rightarrow> JSONLookupDomain \<Rightarrow> HandcraftedPolicy \<Rightarrow> BeliefState list
   \<Rightarrow> error + HandcraftedPolicy" where
  "policy_after lib domain self [] = Inr self"
| "policy_after lib domain self (beliefstate # rest) =
     (case choose_sys_act lib domain self beliefstate of
        Inl e \<Rightarrow> Inl e
      | Inr (out, self1) \<Rightarrow> policy_after lib domain self1 rest)"

subsection \<open>Predicates of the properties\<close>

text \<open>The ways in which one pass through the chain can change the policy object.\<close>

definition policy_change ::
  "pylib \<Rightarrow> JSONLookupDomain \<Rightarrow> BeliefState \<Rightarrow> HandcraftedPolicy \<Rightarrow> HandcraftedPolicy \<Rightarrow> bool" where
  "policy_change lib domain beliefstate self self1 =
     (self1 = self \<or> self1 = dialog_start self
      \<or> self1 = self\<lparr>first_turn := False\<rparr> \<or> self1 = (dialog_start self)\<lparr>first_turn := False\<rparr>
      \<or> modfiy_db lib domain self beliefstate = Inr self1
      \<or> (\<exists>sys_act q a. convert_inform_by_alternatives domain self sys_act q beliefstate
             = Inr (a, self1))
      \<or> (\<exists>sys_act q a. convert_inform_by_constraints self q sys_act beliefstate
             = Inr (a, self1)))"

text \<open>The scroll cursor is an index into the candidate list, if the list has an
  element.\<close>

definition cursor_ok :: "HandcraftedPolicy \<Rightarrow> bool" where
  "cursor_ok self =
     (current_suggestions self \<noteq> []
      \<longrightarrow> 0 \<le> s_index self \<and> s_index self \<le> int (length (current_suggestions self)) - 1)"

text \<open>No review sent to the store has a single or a double quote in its text.\<close>

definition quote_free :: "db_call list \<Rightarrow> bool" where
  "quote_free calls =
     (\<forall>text name. EnterReview text name \<in> set calls
        \<longrightarrow> CHR 0x27 \<notin> set text \<and> CHR 0x22 \<notin> set text)"

text \<open>In a session the turn counter is set, the budget is the configured one, and the
  first-turn flag is set only while no turn has been counted.\<close>

definition session_ok :: "int \<Rightarrow> HandcraftedPolicy \<Rightarrow> bool" where
  "session_ok mt self =
     (max_turns self = mt \<and> turns self \<noteq> None \<and> (first_turn self \<longrightarrow> turns self = Some 0))"

subsection \<open>Notions of the selector's properties\<close>





text \<open>The test of line 596 on the two results of \<open>_get_constraints\<close>: the slot is in
  neither of them; a binary slot has exactly two possible values.\<close>

definition open_slot :: "BeliefState \<Rightarrow> string \<Rightarrow> bool" where
  "open_slot beliefstate slot =
     (slot \<notin> set (snd (get_constraints beliefstate))
      \<and> slot \<notin> set (map fst (fst (get_constraints beliefstate))))"

definition binary_slot :: "JSONLookupDomain \<Rightarrow> string \<Rightarrow> bool" where
  "binary_slot domain slot = (length (get_possible_values domain slot) = 2)"

text \<open>Both possible values of a slot occur in its column; the absolute difference of
  the numbers of their occurrences.\<close>

definition both_values_occur :: "JSONLookupDomain \<Rightarrow> temp \<Rightarrow> string \<Rightarrow> bool" where
  "both_values_occur domain temp slot =
     (case (get_possible_values domain slot, map_of temp slot) of
        ([val1, val2], Some vals) \<Rightarrow> Some val1 \<in> set vals \<and> Some val2 \<in> set vals
      | _ \<Rightarrow> False)"

definition split_diff :: "JSONLookupDomain \<Rightarrow> temp \<Rightarrow> string \<Rightarrow> int" where
  "split_diff domain temp slot =
     (case (get_possible_values domain slot, map_of temp slot) of
        ([val1, val2], Some vals) \<Rightarrow>
          \<bar>int (count_list vals (Some val1)) - int (count_list vals (Some val2))\<bar>
      | _ \<Rightarrow> 0)"

text \<open>What the loop of \<open>_highest_info_gain\<close> keeps true of the dict \<open>diffs\<close> after the
  slots read so far: its keys are the slots with both values, in the order of their
  first occurrence, each with its difference.\<close>

definition diffs_inv ::
  "JSONLookupDomain \<Rightarrow> temp \<Rightarrow> string list \<Rightarrow> (string \<times> int) list \<Rightarrow> bool" where
  "diffs_inv domain temp slots d =
     ((\<forall>kv \<in> set d. both_values_occur domain temp (fst kv)
                     \<and> snd kv = split_diff domain temp (fst kv) \<and> fst kv \<in> set slots)
      \<and> (\<forall>s \<in> set slots. both_values_occur domain temp s \<longrightarrow> s \<in> fst ` set d)
      \<and> (\<forall>pre_d e post_d. d = pre_d @ e # post_d \<longrightarrow>
            (\<exists>pre post. slots = pre @ fst e # post
               \<and> (\<forall>s \<in> set pre. both_values_occur domain temp s \<longrightarrow> s \<in> fst ` set pre_d))))"

subsection \<open>A small domain for concrete runs\<close>

text \<open>
  Venues with a non-binary slot \<open>food\<close> and \<open>area\<close>, and two binary slots
  \<open>live_music\<close> and \<open>outdoor\<close>; the store is a fixed list of rows, searched by the
  constraints (a row matches when each constrained column holds one of the values).
\<close>

definition example_values :: "string \<Rightarrow> string list" where
  "example_values slot =
     (if slot = ''live_music'' \<or> slot = ''outdoor'' then [''yes'', ''no'']
      else if slot = ''food'' then [''italian'', ''greek'', ''thai'']
      else if slot = ''area'' then [''north'', ''south'', ''west'']
      else [])"

definition row_matches :: "(string \<times> string list) list \<Rightarrow> row \<Rightarrow> bool" where
  "row_matches constraints r =
     list_all (\<lambda>c. case map_of r (fst c) of Some (Some v) \<Rightarrow> v \<in> set (snd c) | _ \<Rightarrow> False)
       constraints"

definition example_domain :: "row list \<Rightarrow> JSONLookupDomain" where
  "example_domain rows =
     \<lparr>get_primary_key = ''name'',
      get_system_requestable_slots = [''food'', ''area'', ''live_music'', ''outdoor''],
      get_possible_values = example_values,
      find_entities = (\<lambda>calls constraints. filter (row_matches constraints) rows),
      find_info_about_entity =
        (\<lambda>calls name slots.
           map (filter (\<lambda>kv. fst kv \<in> set (map fst slots)))
             (filter (\<lambda>r. map_of r ''name'' = Some (Some name)) rows)),
      distance_duration = (\<lambda>calls start name manner. (None, None)),
      query_opening_info = (\<lambda>calls day name. ''closed''),
      query_manner_info = (\<lambda>calls manner name. ''none'')\<rparr>"

definition example_lib :: pylib where
  "example_lib =
     \<lparr>json_loads = (\<lambda>s. None),
      py_format = (\<lambda>j. case j of JStr s \<Rightarrow> s | _ \<Rightarrow> []),
      py_float = (\<lambda>s. if s = ''4'' then Some 4 else None)\<rparr>"

definition venue :: "string \<Rightarrow> string \<Rightarrow> string \<Rightarrow> string \<Rightarrow> string \<Rightarrow> row" where
  "venue n f a m out =
     [(''name'', Some n), (''food'', Some f), (''area'', Some a),
      (''live_music'', Some m), (''outdoor'', Some out)]"

text \<open>Three venues that differ in \<open>food\<close> only (and in their names).\<close>

definition rows_food :: "row list" where
  "rows_food =
     [venue ''Roma'' ''italian'' ''north'' ''yes'' ''yes'',
      venue ''Athen'' ''greek'' ''north'' ''yes'' ''yes'',
      venue ''Siam'' ''thai'' ''north'' ''yes'' ''yes'']"

text \<open>Five venues alike in \<open>food\<close> and \<open>area\<close>; \<open>live_music\<close> is split 5/0 and
  \<open>outdoor\<close> 3/2.\<close>

definition rows_binary :: "row list" where
  "rows_binary =
     [venue ''A'' ''thai'' ''west'' ''yes'' ''yes'',
      venue ''B'' ''thai'' ''west'' ''yes'' ''no'',
      venue ''C'' ''thai'' ''west'' ''yes'' ''yes'',
      venue ''D'' ''thai'' ''west'' ''yes'' ''no'',
      venue ''E'' ''thai'' ''west'' ''yes'' ''yes'']"

definition example_beliefstate :: "UserActionType list \<Rightarrow> BeliefState" where
  "example_beliefstate acts =
     \<lparr>user_acts = acts, informs = [], requests = [], given_rating = [], review = [],
      start_point = [], distance_manner = [], req_openingday = [], req_manner = []\<rparr>"

text \<open>The policy object of a session that has just started.\<close>

definition example_policy :: "row list \<Rightarrow> int \<Rightarrow> HandcraftedPolicy" where
  "example_policy rows mt = dialog_start (HandcraftedPolicy_init (example_domain rows) mt)"

text \<open>A belief state whose only constraint is \<open>outdoor = no\<close>.\<close>

definition example_informed :: "UserActionType list \<Rightarrow> BeliefState" where
  "example_informed acts = (example_beliefstate acts)\<lparr>informs := [(''outdoor'', [(''no'', 1)])]\<rparr>"

text \<open>A belief state carrying a written review with an apostrophe and two double
  quotes.\<close>

definition example_review :: BeliefState where
  "example_review =
     (example_informed [WrittenReview])
       \<lparr>review := ''it'' @ [CHR 0x27] @ ''s '' @ [CHR 0x22] @ ''ok'' @ [CHR 0x22]\<rparr>"

text \<open>Constraints that no venue meets (no venue serves italian food), with one
  slot the user does not care about; and a row whose second to fourth values are
  missing.\<close>

definition example_no_match :: BeliefState where
  "example_no_match =
     (example_beliefstate [Inform])
       \<lparr>informs := [(''food'', [(''italian'', 1)]), (''area'', [(''dontcare'', 1)])]\<rparr>"

definition example_detail_row :: row where
  "example_detail_row =
     [(''name'', Some ''Roma''), (''phone'', None), (''address'', Some []),
      (''postcode'', Some ''None''), (''food'', Some ''italian'')]"





definition example_temp :: temp where
  "example_temp =
     [(''name'', []),
      (''food'', [Some ''thai'', Some ''thai'', Some ''thai'', Some ''thai'', Some ''thai'']),
      (''area'', [Some ''west'', Some ''west'', Some ''west'', Some ''west'', Some ''west'']),
      (''live_music'', [Some ''yes'', Some ''yes'', Some ''yes'', Some ''yes'', Some ''yes'']),
      (''outdoor'', [Some ''yes'', Some ''no'', Some ''yes'', Some ''no'', Some ''yes''])]"

section \<open>Properties\<close>

subsection \<open>Filler suppression\<close>

lemma remove_gen_actions_stable:
  "length l \<le> 1 \<or> (Thanks \<notin> set l \<and> UserActionType.Bad \<notin> set l \<and> Hello \<notin> set l)
   \<Longrightarrow> remove_gen_actions l = l"
  by (subst remove_gen_actions.simps) auto

lemma remove_gen_actions_result:
  "length (remove_gen_actions l) \<le> 1 \<or>
   (Thanks \<notin> set (remove_gen_actions l) \<and> UserActionType.Bad \<notin> set (remove_gen_actions l)
    \<and> Hello \<notin> set (remove_gen_actions l))"
proof (induction l rule: remove_gen_actions.induct)
  case (1 l)
  show ?case
    using "1.IH" by (subst (1 2 3 4) remove_gen_actions.simps) (auto split: if_splits)
qed

lemma remove_gen_actions_nonempty: "l \<noteq> [] \<Longrightarrow> remove_gen_actions l \<noteq> []"
proof (induction l rule: remove_gen_actions.induct)
  case (1 l)
  have keep: "remove1 x l \<noteq> []" if "1 < length l" for x
  proof
    assume "remove1 x l = []"
    then have "length (remove1 x l) = 0" by simp
    with that show False by (simp add: length_remove1 split: if_splits)
  qed
  show ?case
    using "1.IH" "1.prems" keep
    by (subst remove_gen_actions.simps) (auto split: if_splits)
qed

text \<open>
  C4. Filler suppression is idempotent (applying it twice gives what applying it once
  gives, for every list of user actions), and it never removes the last remaining
  action: a non-empty list stays non-empty.
\<close>

theorem remove_gen_actions_idempotent_nonempty:
  "remove_gen_actions (remove_gen_actions l) = remove_gen_actions l
   \<and> (l \<noteq> [] \<longrightarrow> remove_gen_actions l \<noteq> [])"
  using remove_gen_actions_stable [OF remove_gen_actions_result [of l]]
    remove_gen_actions_nonempty [of l]
  by simp

theorem remove_gen_actions_idempotent_nonempty_witness:
  "remove_gen_actions (remove_gen_actions [Hello, Thanks, Inform, UserActionType.Bad])
     = remove_gen_actions [Hello, Thanks, Inform, UserActionType.Bad]
   \<and> [Hello, Thanks, Inform, UserActionType.Bad] \<noteq> []
   \<and> remove_gen_actions [Hello, Thanks, Inform, UserActionType.Bad] \<noteq> []
   \<and> remove_gen_actions [Hello, Thanks, Inform, UserActionType.Bad] = [Inform]"
proof -
  have ev: "remove_gen_actions [Hello, Thanks, Inform, UserActionType.Bad] = [Inform]"
    by (simp add: remove_gen_actions.simps)
  show ?thesis
    using remove_gen_actions_idempotent_nonempty [of "[Hello, Thanks, Inform, UserActionType.Bad]"] ev
    by simp
qed

subsection \<open>Hello and SelectDomain\<close>

text \<open>
  C3, as the code has it. When the user-action list after filler suppression contains
  Hello or SelectDomain and none of Bad, Bye, Thanks and NewDialogue (the meta-acts
  tested before), and neither a first-turn welcome nor the turn budget applies, the
  dispatcher emits a GuideUser action with no slot, whether or not a requestable slot
  is still open. The branch that requests the first open slot or asks for more stands
  later in the chain under the same condition, so it is never taken.
\<close>

theorem choose_sys_act_hello_guides:
  assumes "turns self = Some t" and "t + 1 < max_turns self"
    and "\<not> (first_turn self \<and> (user_acts beliefstate = []
              \<or> NewDialogue \<in> set (user_acts beliefstate)))"
    and "Hello \<in> set (remove_gen_actions (user_acts beliefstate))
         \<or> SelectDomain \<in> set (remove_gen_actions (user_acts beliefstate))"
    and "UserActionType.Bad \<notin> set (remove_gen_actions (user_acts beliefstate))"
    and "UserActionType.Bye \<notin> set (remove_gen_actions (user_acts beliefstate))"
    and "Thanks \<notin> set (remove_gen_actions (user_acts beliefstate))"
    and "NewDialogue \<notin> set (remove_gen_actions (user_acts beliefstate))"
  shows "choose_sys_act lib domain self beliefstate =
           Inr ((SysAct_init\<lparr>type := Some GuideUser\<rparr>,
                 sys_state_empty\<lparr>last_act := Some (SysAct_init\<lparr>type := Some GuideUser\<rparr>)\<rparr>),
                self\<lparr>turns := Some (t + 1), first_turn := False\<rparr>)"
proof -
  have disp: "choose_sys_act_dispatch lib domain s
                (beliefstate\<lparr>user_acts := remove_gen_actions (user_acts beliefstate)\<rparr>)
              = Inr ((SysAct_init\<lparr>type := Some GuideUser\<rparr>,
                 sys_state_empty\<lparr>last_act := Some (SysAct_init\<lparr>type := Some GuideUser\<rparr>)\<rparr>), s)" for s
    using assms(4-8)
    by (simp add: choose_sys_act_dispatch_def choose_sys_act_branch_def Let_def sys_state_empty_def)
  show ?thesis
    using assms(1-3) disp by (cases self) (auto simp: choose_sys_act_def Let_def)
qed

text \<open>The first turn of a session, on SelectDomain, Hello and Inform: Hello is
  suppressed, SelectDomain remains, and the answer is GuideUser.\<close>

theorem choose_sys_act_hello_guides_witness:
  "choose_sys_act example_lib (example_domain rows_food)
     (example_policy rows_food 25) (example_beliefstate [SelectDomain, Hello, Inform])
   = Inr ((\<lparr>type = Some GuideUser, slot_values = []\<rparr>,
           \<lparr>last_act = Some \<lparr>type = Some GuideUser, slot_values = []\<rparr>,
            lastRequestSlot = None, lastInformedPrimKeyVal = None\<rparr>),
          \<lparr>first_turn = False, current_suggestions = [], s_index = 0,
           domain_key = ''name'', max_turns = 25, turns = Some 1, db_calls = []\<rparr>)"
proof -
  have r: "remove_gen_actions [SelectDomain, Hello, Inform] = [SelectDomain, Inform]"
    by (simp add: remove_gen_actions.simps)
  have t: "turns (example_policy rows_food 25) = Some 0"
    and m: "0 + 1 < max_turns (example_policy rows_food 25)"
    by (simp_all add: example_policy_def dialog_start_def HandcraftedPolicy_init_def)
  show ?thesis
    using choose_sys_act_hello_guides [OF t m, of "example_beliefstate [SelectDomain, Hello, Inform]"
        example_lib "example_domain rows_food"] r
    by (simp add: example_policy_def dialog_start_def HandcraftedPolicy_init_def
        example_beliefstate_def SysAct_init_def sys_state_empty_def example_domain_def)
qed

text \<open>The claim as stated fails on a lone Hello in the first turn of a session: the
  slot \<open>food\<close> is open, and the action is GuideUser without a slot, not a Request for
  \<open>food\<close>.\<close>

theorem choose_sys_act_hello_counterexample:
  "choose_sys_act example_lib (example_domain rows_food)
     (example_policy rows_food 25) (example_beliefstate [Hello])
   = Inr ((\<lparr>type = Some GuideUser, slot_values = []\<rparr>,
           \<lparr>last_act = Some \<lparr>type = Some GuideUser, slot_values = []\<rparr>,
            lastRequestSlot = None, lastInformedPrimKeyVal = None\<rparr>),
          \<lparr>first_turn = False, current_suggestions = [], s_index = 0,
           domain_key = ''name'', max_turns = 25, turns = Some 1, db_calls = []\<rparr>)
   \<and> get_open_slot (example_domain rows_food) (example_beliefstate [Hello]) = Some ''food''"
  by code_simp

subsection \<open>Scrolling past the last alternative\<close>

text \<open>
  C2. The claim is that a request for alternatives past the end of the candidate list
  repeats the last candidate's identifier. In the session below the user asks for a
  venue with \<open>outdoor = no\<close> (venues B and D match) and then three times for an
  alternative: the policy offers B, then D, and then answers both further requests
  with the identifier \<open>none\<close>, while the cursor stays on D.
\<close>

theorem alternatives_past_end_emit_none:
  "run_turns example_lib (example_domain rows_binary) (example_policy rows_binary 25)
     [example_beliefstate [], example_informed [Inform], example_informed [RequestAlternatives],
      example_informed [RequestAlternatives], example_informed [RequestAlternatives]]
   = [Inr \<lparr>type = Some Welcome, slot_values = []\<rparr>,
      Inr \<lparr>type = Some InformByName,
           slot_values = [(''name'', [Str ''B'']), (''outdoor'', [StrList [''no'']])]\<rparr>,
      Inr \<lparr>type = Some InformByAlternatives,
           slot_values = [(''name'', [Str ''D'']), (''outdoor'', [StrList [''no'']])]\<rparr>,
      Inr \<lparr>type = Some InformByAlternatives,
           slot_values = [(''name'', [Str ''none'']), (''outdoor'', [StrList [''no'']])]\<rparr>,
      Inr \<lparr>type = Some InformByAlternatives,
           slot_values = [(''name'', [Str ''none'']), (''outdoor'', [StrList [''no'']])]\<rparr>]"
  by code_simp

subsection \<open>How a decision changes the policy object\<close>

lemma replace_quotes:
  "replace_char (CHR 0x22) (CHR '' '') (replace_char (CHR 0x27) (CHR '' '') s)
   = map (\<lambda>c. if c = CHR 0x27 \<or> c = CHR 0x22 then CHR '' '' else c) s"
  by (simp add: replace_char_def)

lemma replace_quotes_free:
  "CHR 0x27 \<notin> set (map (\<lambda>c. if c = CHR 0x27 \<or> c = CHR 0x22 then CHR '' '' else c) s)
   \<and> CHR 0x22 \<notin> set (map (\<lambda>c. if c = CHR 0x27 \<or> c = CHR 0x22 then CHR '' '' else c) s)"
  by (auto split: if_splits)

lemma get_name_db_calls [simp]:
  "get_name domain (self\<lparr>db_calls := calls\<rparr>) beliefstate = get_name domain self beliefstate"
  by (simp add: get_name_def Let_def split: option.splits sum.splits)

lemma modfiy_db_eq:
  "modfiy_db lib domain self beliefstate =
     (if given_rating beliefstate = [] \<and> review beliefstate = [] then Inr self
      else if given_rating beliefstate \<noteq> [] \<and> py_float lib (given_rating beliefstate) = None
      then Inl ValueError
      else case get_name domain self beliefstate of
             Inl e \<Rightarrow> Inl e
           | Inr name \<Rightarrow>
               Inr (self\<lparr>db_calls := db_calls self
                  @ (if given_rating beliefstate \<noteq> []
                     then [EnterRating (the (py_float lib (given_rating beliefstate))) name] else [])
                  @ (if review beliefstate \<noteq> [] then
                       [EnterReview (map (\<lambda>c. if c = CHR 0x27 \<or> c = CHR 0x22 then CHR '' '' else c)
                                       (review beliefstate)) name]
                     else [])\<rparr>))"
  by (auto simp: modfiy_db_def Let_def replace_quotes split: if_splits option.splits sum.splits)

lemma modfiy_db_quote_free:
  assumes "modfiy_db lib domain self beliefstate = Inr self1" and "quote_free (db_calls self)"
  shows "quote_free (db_calls self1)"
  using assms replace_quotes_free [of "review beliefstate"]
  by (auto simp: modfiy_db_eq quote_free_def split: if_splits sum.splits; blast)


lemma convert_inform_state:
  assumes "convert_inform lib domain self q sys_act beliefstate = Inr (a, self1)"
  shows "self1 = self
         \<or> convert_inform_by_alternatives domain self sys_act q beliefstate = Inr (a, self1)
         \<or> convert_inform_by_constraints self q sys_act beliefstate = Inr (a, self1)"
  using assms by (auto simp: convert_inform_def split: if_splits sum.splits)

lemma next_action_state:
  assumes "next_action lib domain self beliefstate = Inr (out, self1)"
  shows "self1 = self
         \<or> (\<exists>sys_act q a. convert_inform_by_alternatives domain self sys_act q beliefstate
                = Inr (a, self1))
         \<or> (\<exists>sys_act q a. convert_inform_by_constraints self q sys_act beliefstate
                = Inr (a, self1))"
proof -
  have "self1 = self \<or> (\<exists>sys_act q a. convert_inform lib domain self q sys_act beliefstate
                = Inr (a, self1))"
    using assms
    by (auto simp: next_action_def Let_def split: if_splits sum.splits bool.splits prod.splits)
  then show ?thesis using convert_inform_state by blast
qed

lemma act_GiveRating_state:
  "act_GiveRating lib domain self beliefstate = Inr (a, ss, self1)
   \<Longrightarrow> self1 = self \<or> modfiy_db lib domain self beliefstate = Inr self1"
  by (auto simp: act_GiveRating_def Let_def split: if_splits sum.splits)

lemma act_WrittenReview_state:
  "act_WrittenReview lib domain self beliefstate = Inr (a, ss, self1)
   \<Longrightarrow> modfiy_db lib domain self beliefstate = Inr self1"
  by (auto simp: act_WrittenReview_def Let_def split: if_splits sum.splits)

lemma act_other_state:
  "act_WriteReview domain self beliefstate = Inr (a, ss, self1) \<Longrightarrow> self1 = self"
  "act_AskDistance domain self beliefstate = Inr (a, ss, self1) \<Longrightarrow> self1 = self"
  "act_InformStartPoint self = Inr (a, ss, self1) \<Longrightarrow> self1 = self"
  "act_InformDistanceManner domain self beliefstate = Inr (a, ss, self1) \<Longrightarrow> self1 = self"
  "act_AskOpeningDay domain self beliefstate = Inr (a, ss, self1) \<Longrightarrow> self1 = self"
  "act_AskManner domain self beliefstate = Inr (a, ss, self1) \<Longrightarrow> self1 = self"
  by (auto simp: act_WriteReview_def act_AskDistance_def act_InformStartPoint_def
      act_InformDistanceManner_def act_AskOpeningDay_def act_AskManner_def Let_def
      split: if_splits sum.splits)

lemma act_Hello_request_state:
  "act_Hello_request domain self beliefstate = Inr (a, ss, self1)
   \<Longrightarrow> self1 = self\<lparr>first_turn := False\<rparr> \<or> self1 = (dialog_start self)\<lparr>first_turn := False\<rparr>"
  by (auto simp: act_Hello_request_def Let_def split: if_splits)



lemma choose_sys_act_branch_state:
  assumes "choose_sys_act_branch lib domain self beliefstate = Inr (a, ss, self1)"
  shows "policy_change lib domain beliefstate self self1"
proof -
  define Q :: "branch_result \<Rightarrow> bool" where
    "Q x = (\<forall>a ss s1. x = Inr (a, ss, s1) \<longrightarrow> policy_change lib domain beliefstate self s1)" for x
  have ite: "Q (if c then x else y)" if "c \<Longrightarrow> Q x" "\<not> c \<Longrightarrow> Q y" for c x y
    using that by simp
  have here: "Q (Inr (a, ss, self))" and start: "Q (Inr (a, ss, dialog_start self))" for a ss
    by (simp_all add: Q_def policy_change_def)
  have q1: "Q (act_GiveRating lib domain self beliefstate)"
    using act_GiveRating_state [of lib domain self beliefstate]
    unfolding Q_def policy_change_def by blast
  have q2: "Q (act_WrittenReview lib domain self beliefstate)"
    using act_WrittenReview_state [of lib domain self beliefstate]
    unfolding Q_def policy_change_def by blast
  have same: "Q x" if "\<And>a ss s1. x = Inr (a, ss, s1) \<Longrightarrow> s1 = self" for x
    using that unfolding Q_def policy_change_def by blast
  have q3: "Q (act_WriteReview domain self beliefstate)" "Q (act_AskDistance domain self beliefstate)"
    "Q (act_InformStartPoint self)" "Q (act_InformDistanceManner domain self beliefstate)"
    "Q (act_AskOpeningDay domain self beliefstate)" "Q (act_AskManner domain self beliefstate)"
    by (rule same, erule act_other_state)+
  have q4: "Q (act_Hello_request domain self beliefstate)"
    using act_Hello_request_state [of domain self beliefstate]
    unfolding Q_def policy_change_def by blast
  have q5: "Q (case next_action lib domain self beliefstate of
                 Inl e \<Rightarrow> Inl e
               | Inr ((sys_act, sys_state), self1) \<Rightarrow> Inr (sys_act, sys_state, self1))"
    using next_action_state [of lib domain self beliefstate]
    unfolding Q_def policy_change_def by (auto split: sum.splits)
  have "Q (choose_sys_act_branch lib domain self beliefstate)"
    unfolding choose_sys_act_branch_def Let_def
    by (intro ite here start q1 q2 q3 q4 q5)
  with assms show ?thesis
    unfolding Q_def by blast
qed


lemma choose_sys_act_dispatch_state:
  assumes "choose_sys_act_dispatch lib domain self beliefstate = Inr (out, self1)"
  shows "policy_change lib domain beliefstate self self1"
  using assms choose_sys_act_branch_state [of lib domain self beliefstate _ _ self1]
  by (auto simp: choose_sys_act_dispatch_def split: sum.splits prod.splits)

lemma choose_sys_act_state:
  assumes "choose_sys_act lib domain self beliefstate = Inr (out, self1)"
  shows "\<exists>self2. current_suggestions self2 = current_suggestions self
           \<and> s_index self2 = s_index self \<and> db_calls self2 = db_calls self
           \<and> max_turns self2 = max_turns self \<and> \<not> first_turn self2
           \<and> (\<exists>t. turns self2 = Some t)
           \<and> (self1 = self2
                \<or> policy_change lib domain
                     (beliefstate\<lparr>user_acts := remove_gen_actions (user_acts beliefstate)\<rparr>)
                     self2 self1)"
proof (cases "turns self")
  case None
  with assms show ?thesis by (simp add: choose_sys_act_def)
next
  case (Some t)
  define self2 where
    "self2 = (if first_turn self then self\<lparr>turns := Some (t + 1), first_turn := False\<rparr>
              else self\<lparr>turns := Some (t + 1)\<rparr>)"
  have frame: "current_suggestions self2 = current_suggestions self"
    "s_index self2 = s_index self" "db_calls self2 = db_calls self"
    "max_turns self2 = max_turns self" "\<not> first_turn self2" "\<exists>t. turns self2 = Some t"
    by (simp_all add: self2_def)
  have "self1 = self2
        \<or> choose_sys_act_dispatch lib domain self2
             (beliefstate\<lparr>user_acts := remove_gen_actions (user_acts beliefstate)\<rparr>)
           = Inr (out, self1)"
    using assms Some by (auto simp: choose_sys_act_def Let_def self2_def split: if_splits)
  then have "self1 = self2
        \<or> policy_change lib domain
             (beliefstate\<lparr>user_acts := remove_gen_actions (user_acts beliefstate)\<rparr>)
             self2 self1"
    using choose_sys_act_dispatch_state by blast
  with frame show ?thesis by blast
qed

subsection \<open>Invariants of the policy object\<close>

lemma cursor_ok_alternatives:
  assumes "convert_inform_by_alternatives domain self sys_act q beliefstate = Inr (a, self1)"
    and "cursor_ok self"
  shows "cursor_ok self1"
  using assms
  by (auto simp: convert_inform_by_alternatives_def cursor_ok_def Let_def
      split: if_splits sum.splits option.splits)

lemma cursor_ok_constraints:
  assumes "convert_inform_by_constraints self q sys_act beliefstate = Inr (a, self1)"
    and "cursor_ok self"
  shows "cursor_ok self1"
  using assms
  by (auto simp: convert_inform_by_constraints_def cursor_ok_def Let_def
      split: if_splits sum.splits option.splits)

lemma cursor_ok_modfiy_db:
  assumes "modfiy_db lib domain self beliefstate = Inr self1" and "cursor_ok self"
  shows "cursor_ok self1"
  using assms by (auto simp: modfiy_db_eq cursor_ok_def split: if_splits sum.splits)

lemma cursor_ok_policy_change:
  assumes "policy_change lib domain beliefstate self self1" and "cursor_ok self"
  shows "cursor_ok self1"
proof -
  have "cursor_ok (dialog_start self)" "cursor_ok ((dialog_start self)\<lparr>first_turn := False\<rparr>)"
    "cursor_ok (self\<lparr>first_turn := False\<rparr>)"
    using assms(2) by (simp_all add: cursor_ok_def dialog_start_def)
  then show ?thesis
    using assms cursor_ok_alternatives cursor_ok_constraints cursor_ok_modfiy_db
    unfolding policy_change_def by metis
qed

lemma quote_free_policy_change:
  assumes "policy_change lib domain beliefstate self self1" and "quote_free (db_calls self)"
  shows "quote_free (db_calls self1)"
proof -
  have alt: "db_calls s1 = db_calls self"
    if "convert_inform_by_alternatives domain self sys_act q beliefstate = Inr (a, s1)"
    for sys_act q a s1
    using that
    by (auto simp: convert_inform_by_alternatives_def Let_def
        split: if_splits sum.splits option.splits)
  have con: "db_calls s1 = db_calls self"
    if "convert_inform_by_constraints self q sys_act beliefstate = Inr (a, s1)"
    for sys_act q a s1
    using that
    by (auto simp: convert_inform_by_constraints_def Let_def
        split: if_splits sum.splits option.splits)
  have "quote_free (db_calls (dialog_start self))"
    "quote_free (db_calls ((dialog_start self)\<lparr>first_turn := False\<rparr>))"
    "quote_free (db_calls (self\<lparr>first_turn := False\<rparr>))"
    using assms(2) by (simp_all add: dialog_start_def)
  then show ?thesis
    using assms alt con modfiy_db_quote_free
    unfolding policy_change_def by metis
qed

lemma cursor_ok_choose_sys_act:
  assumes "choose_sys_act lib domain self beliefstate = Inr (out, self1)" and "cursor_ok self"
  shows "cursor_ok self1"
proof -
  obtain self2 where f: "current_suggestions self2 = current_suggestions self"
      "s_index self2 = s_index self"
    and c: "self1 = self2 \<or> policy_change lib domain
                     (beliefstate\<lparr>user_acts := remove_gen_actions (user_acts beliefstate)\<rparr>)
                     self2 self1"
    using choose_sys_act_state [OF assms(1)] by blast
  have "cursor_ok self2"
    using assms(2) f by (simp add: cursor_ok_def)
  with c show ?thesis
    using cursor_ok_policy_change by blast
qed

lemma quote_free_choose_sys_act:
  assumes "choose_sys_act lib domain self beliefstate = Inr (out, self1)"
    and "quote_free (db_calls self)"
  shows "quote_free (db_calls self1)"
proof -
  obtain self2 where f: "db_calls self2 = db_calls self"
    and c: "self1 = self2 \<or> policy_change lib domain
                     (beliefstate\<lparr>user_acts := remove_gen_actions (user_acts beliefstate)\<rparr>)
                     self2 self1"
    using choose_sys_act_state [OF assms(1)] by blast
  with assms(2) show ?thesis
    using quote_free_policy_change by metis
qed

text \<open>
  C7. The scroll cursor \<open>s_index\<close> is an index in \<open>[0, len - 1]\<close> into the candidate
  list whenever the list is non-empty: this holds after a session reset, it is kept by
  alternative scrolling and by a constraint-based inform, and so it holds of the policy
  object after any number of decisions of a session.
\<close>

theorem s_index_valid:
  "cursor_ok (dialog_start self)
   \<and> (cursor_ok self
        \<longrightarrow> convert_inform_by_alternatives domain self sys_act q beliefstate = Inr (a, self')
        \<longrightarrow> cursor_ok self')
   \<and> (cursor_ok self
        \<longrightarrow> convert_inform_by_constraints self q sys_act beliefstate = Inr (a, self')
        \<longrightarrow> cursor_ok self')
   \<and> (policy_after lib domain (dialog_start (HandcraftedPolicy_init domain mt)) turns_seen
          = Inr final
        \<longrightarrow> cursor_ok final)"
proof -
  have run: "cursor_ok s1"
    if "policy_after lib domain s bss = Inr s1" "cursor_ok s" for s s1 bss
    using that
  proof (induction bss arbitrary: s)
    case Nil
    then show ?case by simp
  next
    case (Cons b bss)
    then show ?case
      using cursor_ok_choose_sys_act
      by (auto split: sum.splits)
  qed
  have start: "cursor_ok (dialog_start s)" for s
    by (simp add: cursor_ok_def dialog_start_def)
  show ?thesis
    using run [OF _ start] start cursor_ok_alternatives cursor_ok_constraints by blast
qed

text \<open>A session that scrolls twice past the end of a list of two candidates: the
  cursor ends on the last candidate.\<close>

theorem s_index_valid_witness:
  "policy_after example_lib (example_domain rows_binary)
          (dialog_start (HandcraftedPolicy_init (example_domain rows_binary) 25))
     [example_beliefstate [], example_informed [Inform], example_informed [RequestAlternatives],
      example_informed [RequestAlternatives], example_informed [RequestAlternatives]]
   = Inr \<lparr>first_turn = False,
          current_suggestions = [venue ''B'' ''thai'' ''west'' ''yes'' ''no'',
                                 venue ''D'' ''thai'' ''west'' ''yes'' ''no''],
          s_index = 1, domain_key = ''name'', max_turns = 25, turns = Some 5, db_calls = []\<rparr>
   \<and> cursor_ok \<lparr>first_turn = False,
          current_suggestions = [venue ''B'' ''thai'' ''west'' ''yes'' ''no'',
                                 venue ''D'' ''thai'' ''west'' ''yes'' ''no''],
          s_index = 1, domain_key = ''name'', max_turns = 25, turns = Some 5, db_calls = []\<rparr>"
  (is "?run = Inr ?end \<and> _")
proof -
  have ev: "?run = Inr ?end"
    by code_simp
  have "?run = Inr ?end \<longrightarrow> cursor_ok ?end"
    by (rule s_index_valid [THEN conjunct2, THEN conjunct2, THEN conjunct2])
  with ev show ?thesis
    by blast
qed


subsection \<open>The turn budget\<close>

lemma choose_sys_act_budget_step:
  assumes "turns self = Some t" and "max_turns self \<le> t + 1"
  shows "choose_sys_act lib domain self beliefstate =
           (let sys_act = SysAct_init\<lparr>type := Some
                  (if first_turn self \<and> (user_acts beliefstate = []
                        \<or> NewDialogue \<in> set (user_acts beliefstate))
                   then Welcome else SysActionType.Bye)\<rparr>
            in Inr ((sys_act, sys_state_empty\<lparr>last_act := Some sys_act\<rparr>),
                    self\<lparr>turns := Some (t + 1), first_turn := False\<rparr>))"
  using assms by (cases self) (auto simp: choose_sys_act_def Let_def)

lemma choose_sys_act_budget_run:
  assumes "turns self = Some t" and "max_turns self \<le> t + 1"
  shows "run_turns lib domain self (beliefstate # rest) =
           Inr (SysAct_init\<lparr>type := Some
                  (if first_turn self \<and> (user_acts beliefstate = []
                        \<or> NewDialogue \<in> set (user_acts beliefstate))
                   then Welcome else SysActionType.Bye)\<rparr>)
           # map (\<lambda>b. Inr (SysAct_init\<lparr>type := Some SysActionType.Bye\<rparr>)) rest"
proof -
  have later: "run_turns lib domain s bss
                 = map (\<lambda>b. Inr (SysAct_init\<lparr>type := Some SysActionType.Bye\<rparr>)) bss"
    if "turns s = Some n" "max_turns s \<le> n + 1" "\<not> first_turn s" for s n bss
    using that
  proof (induction bss arbitrary: s n)
    case Nil
    then show ?case by simp
  next
    case (Cons b bss)
    have step: "choose_sys_act lib domain s b =
        Inr ((SysAct_init\<lparr>type := Some SysActionType.Bye\<rparr>,
              sys_state_empty\<lparr>last_act := Some (SysAct_init\<lparr>type := Some SysActionType.Bye\<rparr>)\<rparr>),
             s\<lparr>turns := Some (n + 1), first_turn := False\<rparr>)"
      using choose_sys_act_budget_step [OF Cons.prems(1,2), of lib domain b] Cons.prems(3)
      by (simp add: Let_def)
    have "run_turns lib domain (s\<lparr>turns := Some (n + 1), first_turn := False\<rparr>) bss
            = map (\<lambda>b. Inr (SysAct_init\<lparr>type := Some SysActionType.Bye\<rparr>)) bss"
      using Cons.prems by (intro Cons.IH [of _ "n + 1"]) simp_all
    with step show ?case by simp
  qed
  show ?thesis
    using choose_sys_act_budget_step [OF assms, of lib domain beliefstate]
      later [of "self\<lparr>turns := Some (t + 1), first_turn := False\<rparr>" "t + 1" rest] assms
    by (simp add: Let_def)
qed

lemma session_ok_policy_change:
  assumes "policy_change lib domain beliefstate self self1" and "session_ok mt self"
  shows "session_ok mt self1"
proof -
  have alt: "session_ok mt s1"
    if "convert_inform_by_alternatives domain self sys_act q beliefstate = Inr (a, s1)"
    for sys_act q a s1
    using that assms(2)
    by (auto simp: convert_inform_by_alternatives_def session_ok_def Let_def
        split: if_splits sum.splits option.splits)
  have con: "session_ok mt s1"
    if "convert_inform_by_constraints self q sys_act beliefstate = Inr (a, s1)"
    for sys_act q a s1
    using that assms(2)
    by (auto simp: convert_inform_by_constraints_def session_ok_def Let_def
        split: if_splits sum.splits option.splits)
  have db: "session_ok mt s1" if "modfiy_db lib domain self beliefstate = Inr s1" for s1
    using that assms(2) by (auto simp: modfiy_db_eq session_ok_def split: if_splits sum.splits)
  have "session_ok mt (dialog_start self)" "session_ok mt ((dialog_start self)\<lparr>first_turn := False\<rparr>)"
    "session_ok mt (self\<lparr>first_turn := False\<rparr>)"
    using assms(2) by (simp_all add: session_ok_def dialog_start_def)
  then show ?thesis
    using assms alt con db unfolding policy_change_def by metis
qed

lemma session_ok_choose_sys_act:
  assumes "choose_sys_act lib domain self beliefstate = Inr (out, self1)" and "session_ok mt self"
  shows "session_ok mt self1"
proof -
  obtain self2 where f: "max_turns self2 = max_turns self" "\<not> first_turn self2"
      "\<exists>t. turns self2 = Some t"
    and c: "self1 = self2 \<or> policy_change lib domain
                     (beliefstate\<lparr>user_acts := remove_gen_actions (user_acts beliefstate)\<rparr>)
                     self2 self1"
    using choose_sys_act_state [OF assms(1)] by blast
  have "session_ok mt self2"
    using assms(2) f by (auto simp: session_ok_def)
  with c show ?thesis
    using session_ok_policy_change by blast
qed

lemma session_ok_policy_after:
  assumes "policy_after lib domain self seen = Inr self1" and "session_ok mt self"
  shows "session_ok mt self1"
  using assms
proof (induction seen arbitrary: self)
  case Nil
  then show ?case by simp
next
  case (Cons b seen)
  then show ?case
    using session_ok_choose_sys_act by (auto split: sum.splits)
qed

text \<open>
  C1, as the code has it. Once the turn count, as the invocation increments it, has
  reached the configured maximum, every invocation of \<open>choose_sys_act\<close> returns the
  bare Bye action whatever the user actions are, with one exception: an invocation on
  the first turn (the first-turn flag is still set) whose user-action list is empty or
  contains NewDialogue returns Welcome, since the two welcome cases are tested before
  the budget. That invocation clears the flag, so all later ones return Bye. In a
  session with a maximum of at least two turns the exception does not arise: there
  every decision from the one that reaches the maximum on is Bye.
\<close>

theorem choose_sys_act_bye_after_budget:
  "(turns self = Some t \<and> max_turns self \<le> t + 1
      \<longrightarrow> run_turns lib domain self (beliefstate # rest) =
            Inr (SysAct_init\<lparr>type := Some
                   (if first_turn self \<and> (user_acts beliefstate = []
                         \<or> NewDialogue \<in> set (user_acts beliefstate))
                    then Welcome else SysActionType.Bye)\<rparr>)
            # map (\<lambda>b. Inr (SysAct_init\<lparr>type := Some SysActionType.Bye\<rparr>)) rest)
   \<and> (policy_after lib domain (dialog_start (HandcraftedPolicy_init domain mt)) seen = Inr reached
        \<and> 2 \<le> mt \<and> turns reached = Some n \<and> mt \<le> n + 1
      \<longrightarrow> run_turns lib domain reached later
            = map (\<lambda>b. Inr (SysAct_init\<lparr>type := Some SysActionType.Bye\<rparr>)) later)"
proof (rule conjI; rule impI)
  assume "turns self = Some t \<and> max_turns self \<le> t + 1"
  then show "run_turns lib domain self (beliefstate # rest) =
            Inr (SysAct_init\<lparr>type := Some
                   (if first_turn self \<and> (user_acts beliefstate = []
                         \<or> NewDialogue \<in> set (user_acts beliefstate))
                    then Welcome else SysActionType.Bye)\<rparr>)
            # map (\<lambda>b. Inr (SysAct_init\<lparr>type := Some SysActionType.Bye\<rparr>)) rest"
    using choose_sys_act_budget_run by simp
next
  assume a: "policy_after lib domain (dialog_start (HandcraftedPolicy_init domain mt)) seen
               = Inr reached
        \<and> 2 \<le> mt \<and> turns reached = Some n \<and> mt \<le> n + 1"
  have "session_ok mt (dialog_start (HandcraftedPolicy_init domain mt))"
    by (simp add: session_ok_def dialog_start_def HandcraftedPolicy_init_def)
  with a have ok: "session_ok mt reached"
    using session_ok_policy_after by blast
  with a have nf: "\<not> first_turn reached" and m: "max_turns reached \<le> n + 1"
    by (auto simp: session_ok_def)
  show "run_turns lib domain reached later
            = map (\<lambda>b. Inr (SysAct_init\<lparr>type := Some SysActionType.Bye\<rparr>)) later"
  proof (cases later)
    case Nil
    then show ?thesis by simp
  next
    case (Cons b bs)
    from a have t: "turns reached = Some n" by simp
    show ?thesis
      unfolding Cons using choose_sys_act_budget_run [OF t m, of lib domain b bs] nf by simp
  qed
qed

text \<open>A session with a budget of one turn: the first decision, on no user action,
  is Welcome although the turn count has reached the budget; the next two are Bye.
  A session with a budget of two turns: after the first turn, every decision is Bye.\<close>

theorem choose_sys_act_bye_after_budget_witness:
  "run_turns example_lib (example_domain rows_food) (example_policy rows_food 1)
     [example_beliefstate [], example_beliefstate [Hello], example_beliefstate [Inform]]
   = [Inr \<lparr>type = Some Welcome, slot_values = []\<rparr>,
      Inr \<lparr>type = Some SysActionType.Bye, slot_values = []\<rparr>,
      Inr \<lparr>type = Some SysActionType.Bye, slot_values = []\<rparr>]
   \<and> policy_after example_lib (example_domain rows_food)
         (dialog_start (HandcraftedPolicy_init (example_domain rows_food) 2))
         [example_beliefstate []]
       = Inr \<lparr>first_turn = False, current_suggestions = [], s_index = 0,
              domain_key = ''name'', max_turns = 2, turns = Some 1, db_calls = []\<rparr>
   \<and> run_turns example_lib (example_domain rows_food)
         \<lparr>first_turn = False, current_suggestions = [], s_index = 0,
          domain_key = ''name'', max_turns = 2, turns = Some 1, db_calls = []\<rparr>
         [example_beliefstate [], example_beliefstate [NewDialogue]]
       = [Inr \<lparr>type = Some SysActionType.Bye, slot_values = []\<rparr>,
          Inr \<lparr>type = Some SysActionType.Bye, slot_values = []\<rparr>]"
  (is "?one \<and> ?seen = Inr ?reached \<and> ?two")
proof -
  have t: "turns (example_policy rows_food 1) = Some 0
           \<and> max_turns (example_policy rows_food 1) \<le> 0 + 1"
    by (simp add: example_policy_def dialog_start_def HandcraftedPolicy_init_def)
  have one: ?one
    using choose_sys_act_bye_after_budget [THEN conjunct1, rule_format, OF t,
        of example_lib "example_domain rows_food"
        "example_beliefstate []" "[example_beliefstate [Hello], example_beliefstate [Inform]]"]
    by (simp add: example_policy_def dialog_start_def HandcraftedPolicy_init_def
        example_beliefstate_def SysAct_init_def)
  have seen: "?seen = Inr ?reached"
    by code_simp
  have "?seen = Inr ?reached \<and> (2::int) \<le> 2 \<and> turns ?reached = Some 1 \<and> (2::int) \<le> 1 + 1"
    using seen by simp
  from choose_sys_act_bye_after_budget [THEN conjunct2, rule_format, OF this,
      of "[example_beliefstate [], example_beliefstate [NewDialogue]]"]
  have two: ?two
    by (simp add: SysAct_init_def)
  from one seen two show ?thesis by blast
qed

text \<open>The claim as stated fails there: with \<open>max_turns = 1\<close> the first invocation of
  a session, on an empty user-action list, raises the turn count to the maximum and
  returns Welcome, not Bye.\<close>

theorem choose_sys_act_budget_counterexample:
  "choose_sys_act example_lib (example_domain rows_food) (example_policy rows_food 1)
     (example_beliefstate [])
   = Inr ((\<lparr>type = Some Welcome, slot_values = []\<rparr>,
           \<lparr>last_act = Some \<lparr>type = Some Welcome, slot_values = []\<rparr>,
            lastRequestSlot = None, lastInformedPrimKeyVal = None\<rparr>),
          \<lparr>first_turn = False, current_suggestions = [], s_index = 0,
           domain_key = ''name'', max_turns = 1, turns = Some 1, db_calls = []\<rparr>)"
  by (simp add: choose_sys_act_def example_policy_def dialog_start_def HandcraftedPolicy_init_def
      example_domain_def example_beliefstate_def SysAct_init_def sys_state_empty_def Let_def)

subsection \<open>Reviews sent to the store\<close>

text \<open>
  C10. When the review field of the belief state is non-empty, the text that
  \<open>_modfiy_db\<close> passes to \<open>enter_review\<close>, as its last call to the store, is the review
  with every single and every double quote replaced by a space; the call adds no text
  with a quote to the calls made so far, and in a session \<open>enter_review\<close> is never
  called with a quote in its text.
\<close>

theorem enter_review_quote_free:
  "(review beliefstate \<noteq> [] \<longrightarrow> modfiy_db lib domain self beliefstate = Inr self'
      \<longrightarrow> (\<exists>name before.
             db_calls self'
               = before @ [EnterReview (map (\<lambda>c. if c = CHR 0x27 \<or> c = CHR 0x22 then CHR '' '' else c)
                                            (review beliefstate)) name]
             \<and> (before = db_calls self \<or> (\<exists>rating. before = db_calls self @ [EnterRating rating name]))))
   \<and> (quote_free (db_calls self) \<longrightarrow> modfiy_db lib domain self beliefstate = Inr self'
        \<longrightarrow> quote_free (db_calls self'))
   \<and> (policy_after lib domain (dialog_start (HandcraftedPolicy_init domain mt)) turns_seen
          = Inr final
        \<longrightarrow> quote_free (db_calls final))"
proof -
  have run: "quote_free (db_calls s1)"
    if "policy_after lib domain s bss = Inr s1" "quote_free (db_calls s)" for s s1 bss
    using that
  proof (induction bss arbitrary: s)
    case Nil
    then show ?case by simp
  next
    case (Cons b bss)
    then show ?case
      using quote_free_choose_sys_act
      by (auto split: sum.splits)
  qed
  have start: "quote_free (db_calls (dialog_start (HandcraftedPolicy_init domain mt)))"
    by (simp add: quote_free_def dialog_start_def HandcraftedPolicy_init_def)
  have one: "review beliefstate \<noteq> [] \<longrightarrow> modfiy_db lib domain self beliefstate = Inr self'
      \<longrightarrow> (\<exists>name before.
             db_calls self'
               = before @ [EnterReview (map (\<lambda>c. if c = CHR 0x27 \<or> c = CHR 0x22 then CHR '' '' else c)
                                            (review beliefstate)) name]
             \<and> (before = db_calls self \<or> (\<exists>rating. before = db_calls self @ [EnterRating rating name])))"
    by (auto simp: modfiy_db_eq split: if_splits sum.splits)
  show ?thesis
    using one run [OF _ start] modfiy_db_quote_free by blast
qed


text \<open>A session in which the user reviews the venue offered: the apostrophe and
  the double quotes of the review reach the store as spaces.\<close>

theorem enter_review_quote_free_witness:
  "policy_after example_lib (example_domain rows_binary)
          (dialog_start (HandcraftedPolicy_init (example_domain rows_binary) 25))
     [example_beliefstate [], example_informed [Inform], example_review]
   = Inr \<lparr>first_turn = False,
          current_suggestions = [venue ''B'' ''thai'' ''west'' ''yes'' ''no'',
                                 venue ''D'' ''thai'' ''west'' ''yes'' ''no''],
          s_index = 0, domain_key = ''name'', max_turns = 25, turns = Some 3,
          db_calls = [EnterReview ''it s  ok '' (Some ''B'')]\<rparr>
   \<and> quote_free (db_calls \<lparr>first_turn = False,
          current_suggestions = [venue ''B'' ''thai'' ''west'' ''yes'' ''no'',
                                 venue ''D'' ''thai'' ''west'' ''yes'' ''no''],
          s_index = 0, domain_key = ''name'', max_turns = 25, turns = Some 3,
          db_calls = [EnterReview ''it s  ok '' (Some ''B'')]\<rparr>)"
  (is "?run = Inr ?end \<and> _")
proof -
  have ev: "?run = Inr ?end"
    by code_simp
  have "?run = Inr ?end \<longrightarrow> quote_free (db_calls ?end)"
    by (rule enter_review_quote_free [THEN conjunct2, THEN conjunct2])
  with ev show ?thesis
    by blast
qed

subsection \<open>Slots and values of a system action\<close>

lemma get_values_add_value:
  "get_values k (add_value slot val sys_act) =
     (if k = slot then get_values k sys_act @ (case val of None \<Rightarrow> [] | Some v \<Rightarrow> [v])
      else get_values k sys_act)"
proof (cases "slot \<in> fst ` set (slot_values sys_act)")
  case True
  then obtain vs where "map_of (slot_values sys_act) slot = Some vs"
    by (cases "map_of (slot_values sys_act) slot") (auto simp: map_of_eq_None_iff)
  with True show ?thesis
    by (cases val) (simp_all add: get_values_def add_value_def Let_def map_of_map_entry)
next
  case False
  then have "map_of (slot_values sys_act) slot = None"
    by (simp add: map_of_eq_None_iff)
  with False show ?thesis
    by (cases val)
       (auto simp: get_values_def add_value_def Let_def map_of_map_entry map_add_def
          split: option.splits)
qed

lemma slots_add_value:
  "fst ` set (slot_values (add_value slot val sys_act))
     = insert slot (fst ` set (slot_values sys_act))"
  by (cases val) (simp_all add: add_value_def Let_def dom_map_entry insert_absorb)

lemma type_add_value [simp]: "type (add_value slot val sys_act) = type sys_act"
  by (cases val) (simp_all add: add_value_def Let_def)

lemma type_add_constraints [simp]: "type (add_constraints cs sys_act) = type sys_act"
  unfolding add_constraints_def by (induction cs arbitrary: sys_act) simp_all

lemma get_values_add_constraints_mono:
  "set (get_values k sys_act) \<subseteq> set (get_values k (add_constraints cs sys_act))"
  unfolding add_constraints_def
proof (induction cs arbitrary: sys_act)
  case Nil
  then show ?case by simp
next
  case (Cons c cs)
  have "set (get_values k sys_act)
          \<subseteq> set (get_values k (add_value (fst c) (Some (StrList (snd c))) sys_act))"
    by (auto simp: get_values_add_value)
  with Cons [of "add_value (fst c) (Some (StrList (snd c))) sys_act"] show ?case
    by auto
qed

lemma get_values_add_constraints:
  assumes "(c, vals) \<in> set cs"
  shows "StrList vals \<in> set (get_values c (add_constraints cs sys_act))"
  using assms
proof (induction cs arbitrary: sys_act)
  case Nil
  then show ?case by simp
next
  case (Cons x cs)
  show ?case
  proof (cases "x = (c, vals)")
    case True
    have "StrList vals \<in> set (get_values c (add_value c (Some (StrList vals)) sys_act))"
      by (simp add: get_values_add_value)
    then show ?thesis
      using True get_values_add_constraints_mono
        [of c "add_value c (Some (StrList vals)) sys_act" cs]
      by (auto simp: add_constraints_def)
  next
    case False
    with Cons.prems have "(c, vals) \<in> set cs" by simp
    from Cons.IH [OF this, of "add_value (fst x) (Some (StrList (snd x))) sys_act"]
    show ?thesis by (simp add: add_constraints_def)
  qed
qed

lemma slots_add_constraints:
  "fst ` set (slot_values (add_constraints cs sys_act))
     = fst ` set cs \<union> fst ` set (slot_values sys_act)"
  unfolding add_constraints_def
  by (induction cs arbitrary: sys_act) (auto simp: slots_add_value)

lemma get_constraints_slots:
  "(slot, vals) \<in> set (fst (get_constraints beliefstate)) \<longleftrightarrow>
     (\<exists>scored. (slot, scored) \<in> set (informs beliefstate) \<and> scored \<noteq> [] \<and> vals = map fst scored
        \<and> slot \<notin> set (snd (get_constraints beliefstate)))"
  by (auto simp: get_constraints_def Let_def)

lemma get_constraints_dontcare:
  "slot \<in> set (snd (get_constraints beliefstate)) \<longleftrightarrow>
     (\<exists>scored. (slot, scored) \<in> set (informs beliefstate) \<and> ''dontcare'' \<in> set (map fst scored))"
  by (auto simp: get_constraints_def Let_def)

subsection \<open>An offer when nothing matches\<close>

text \<open>
  C8. A constraint-based inform on a query result without rows returns an InformByName
  action (and leaves the policy object as it is) whose primary-key slot carries the
  value \<open>none\<close> and which carries every active constraint: every informed slot that
  has a value and is not in the don't-care list (the second component of
  \<open>_get_constraints\<close>) is a slot of the action, with the list of its values as a value.
\<close>

theorem convert_inform_by_constraints_no_rows:
  "\<exists>sys_act'.
     convert_inform_by_constraints self [] sys_act beliefstate = Inr (sys_act', self)
     \<and> type sys_act' = Some InformByName
     \<and> Str ''none'' \<in> set (get_values (domain_key self) sys_act')
     \<and> (\<forall>slot scored.
            (slot, scored) \<in> set (informs beliefstate) \<and> scored \<noteq> []
            \<and> slot \<notin> set (snd (get_constraints beliefstate))
            \<longrightarrow> slot \<in> fst ` set (slot_values sys_act')
                \<and> StrList (map fst scored) \<in> set (get_values slot sys_act'))"
proof -
  let ?base = "(add_value (domain_key self) (Some (Str ''none'')) sys_act)\<lparr>type := Some InformByName\<rparr>"
  let ?res = "add_constraints (fst (get_constraints beliefstate)) ?base"
  have r: "convert_inform_by_constraints self [] sys_act beliefstate = Inr (?res, self)"
    by (simp add: convert_inform_by_constraints_def Let_def)
  have gv: "get_values k (s\<lparr>type := t\<rparr>) = get_values k s" for k s t
    by (simp add: get_values_def)
  have "Str ''none'' \<in> set (get_values (domain_key self) ?base)"
    by (simp add: gv get_values_add_value)
  then have none: "Str ''none'' \<in> set (get_values (domain_key self) ?res)"
    using get_values_add_constraints_mono by blast
  have echo: "slot \<in> fst ` set (slot_values ?res)
                \<and> StrList (map fst scored) \<in> set (get_values slot ?res)"
    if "(slot, scored) \<in> set (informs beliefstate)" "scored \<noteq> []"
      "slot \<notin> set (snd (get_constraints beliefstate))" for slot scored
  proof -
    have m: "(slot, map fst scored) \<in> set (fst (get_constraints beliefstate))"
      using that get_constraints_slots by blast
    then have "slot \<in> fst ` set (fst (get_constraints beliefstate))"
      by force
    then show ?thesis
      using get_values_add_constraints [OF m] slots_add_constraints by blast
  qed
  show ?thesis
    using r none echo by (intro exI [of _ ?res]) auto
qed


text \<open>The user wants italian food and does not care about the area; no row was
  found: the action names \<open>none\<close> and echoes \<open>food\<close>.\<close>

theorem convert_inform_by_constraints_no_rows_witness:
  "convert_inform_by_constraints (example_policy rows_food 25) []
     (SysAct_init\<lparr>type := Some InformByName\<rparr>) example_no_match
   = Inr (\<lparr>type = Some InformByName,
           slot_values = [(''name'', [Str ''none'']), (''food'', [StrList [''italian'']])]\<rparr>,
          example_policy rows_food 25)
   \<and> Str ''none'' \<in> set (get_values ''name'' \<lparr>type = Some InformByName,
           slot_values = [(''name'', [Str ''none'']), (''food'', [StrList [''italian'']])]\<rparr>)
   \<and> StrList [''italian''] \<in> set (get_values ''food'' \<lparr>type = Some InformByName,
           slot_values = [(''name'', [Str ''none'']), (''food'', [StrList [''italian'']])]\<rparr>)"
  (is "?run = Inr (?act, ?pol) \<and> _")
proof -
  have ev: "?run = Inr (?act, ?pol)"
    by code_simp
  have dk: "domain_key ?pol = ''name''"
    and inf: "(''food'', [(''italian'', 1)]) \<in> set (informs example_no_match)"
    and care: "''food'' \<notin> set (snd (get_constraints example_no_match))"
    by code_simp+
  obtain act where r: "?run = Inr (act, ?pol)"
    and n: "Str ''none'' \<in> set (get_values (domain_key ?pol) act)"
    and e: "\<forall>slot scored.
            (slot, scored) \<in> set (informs example_no_match) \<and> scored \<noteq> []
            \<and> slot \<notin> set (snd (get_constraints example_no_match))
            \<longrightarrow> slot \<in> fst ` set (slot_values act)
                \<and> StrList (map fst scored) \<in> set (get_values slot act)"
    using convert_inform_by_constraints_no_rows
      [of ?pol "SysAct_init\<lparr>type := Some InformByName\<rparr>" example_no_match]
    by blast
  from r ev have "act = ?act" by simp
  with n e inf care dk ev show ?thesis
    by force
qed

subsection \<open>Details of an entity\<close>

lemma primkey_value_unavailable:
  assumes "v = None \<or> v = Some [] \<or> v = Some ''None''"
  shows "primkey_value lib k v = Inr ''not available''"
  using assms by (auto simp: primkey_value_def)

lemma primkey_value_plain:
  assumes "k \<noteq> ''opening_hours''" "k \<noteq> ''reviews''" "k \<noteq> ''manner''"
  shows "\<exists>res. primkey_value lib k v = Inr res"
  using assms by (simp add: primkey_value_def Let_def)

lemma primkey_add_keys_mono:
  assumes "primkey_add_keys lib result keys sys_act = Inr sys_act'"
  shows "set (get_values k sys_act) \<subseteq> set (get_values k sys_act')
         \<and> fst ` set (slot_values sys_act) \<subseteq> fst ` set (slot_values sys_act')"
  using assms
proof (induction keys arbitrary: sys_act)
  case Nil
  then show ?case by simp
next
  case (Cons x keys)
  from Cons.prems obtain v res where
    step: "primkey_add_keys lib result keys (add_value x (Some (Str res)) sys_act) = Inr sys_act'"
    by (auto split: option.splits sum.splits)
  show ?case
    using Cons.IH [OF step] by (auto simp: get_values_add_value slots_add_value)
qed

lemma primkey_add_keys_unavailable:
  assumes "primkey_add_keys lib result keys sys_act = Inr sys_act'"
    and "k \<in> set keys" and "map_of result k = Some v"
    and "v = None \<or> v = Some [] \<or> v = Some ''None''"
  shows "k \<in> fst ` set (slot_values sys_act')
         \<and> Str ''not available'' \<in> set (get_values k sys_act')"
  using assms(1,2)
proof (induction keys arbitrary: sys_act)
  case Nil
  then show ?case by simp
next
  case (Cons x keys)
  from Cons.prems(1) obtain w res where
    w: "map_of result x = Some w" and res: "primkey_value lib x w = Inr res"
    and step: "primkey_add_keys lib result keys (add_value x (Some (Str res)) sys_act) = Inr sys_act'"
    by (auto split: option.splits sum.splits)
  show ?case
  proof (cases "x = k")
    case True
    with w res assms(3,4) have "res = ''not available''"
      using primkey_value_unavailable [of v lib k] by simp
    then have "k \<in> fst ` set (slot_values (add_value x (Some (Str res)) sys_act))"
      "Str ''not available'' \<in> set (get_values k (add_value x (Some (Str res)) sys_act))"
      using True by (simp_all add: get_values_add_value slots_add_value)
    then show ?thesis
      using primkey_add_keys_mono [OF step, of k] by blast
  next
    case False
    with Cons.prems(2) have "k \<in> set keys" by simp
    from Cons.IH [OF step this] show ?thesis .
  qed
qed

lemma primkey_add_keys_returns:
  assumes "\<forall>k \<in> set keys. \<exists>v. map_of result k = Some v
             \<and> (k \<in> {''opening_hours'', ''reviews'', ''manner''}
                  \<longrightarrow> v = None \<or> v = Some [] \<or> v = Some ''None'')"
  shows "\<exists>sys_act'. primkey_add_keys lib result keys sys_act = Inr sys_act'"
  using assms
proof (induction keys arbitrary: sys_act)
  case Nil
  then show ?case by simp
next
  case (Cons x keys)
  from Cons.prems obtain v where v: "map_of result x = Some v"
    and u: "x \<in> {''opening_hours'', ''reviews'', ''manner''}
            \<longrightarrow> v = None \<or> v = Some [] \<or> v = Some ''None''"
    by auto
  have "\<exists>res. primkey_value lib x v = Inr res"
  proof (cases "x \<in> {''opening_hours'', ''reviews'', ''manner''}")
    case True
    with u show ?thesis using primkey_value_unavailable [of v lib x] by blast
  next
    case False
    then show ?thesis using primkey_value_plain [of x lib v] by simp
  qed
  then obtain res where res: "primkey_value lib x v = Inr res" ..
  from Cons.prems have "\<forall>k \<in> set keys. \<exists>v. map_of result k = Some v
             \<and> (k \<in> {''opening_hours'', ''reviews'', ''manner''}
                  \<longrightarrow> v = None \<or> v = Some [] \<or> v = Some ''None'')"
    by simp
  from Cons.IH [OF this, of "add_value x (Some (Str res)) sys_act"] v res
  show ?case by simp
qed

lemma take_keys_present:
  "k \<in> set (take n (map fst result)) \<Longrightarrow> \<exists>v. map_of result k = Some v"
  by (metis in_set_takeD map_of_eq_None_iff not_Some_eq set_map)


lemma convert_inform_by_primkey_rows:
  "convert_inform_by_primkey lib domain self (result # rest) sys_act beliefstate =
     (case primkey_add_keys lib result (take 4 (map fst result))
             (sys_act\<lparr>type := Some InformByName\<rparr>) of
        Inl e \<Rightarrow> Inl e
      | Inr sys_act1 \<Rightarrow>
          if domain_key self \<notin> set (take 4 (map fst result)) then
            (case get_name domain self beliefstate of
               Inl e \<Rightarrow> Inl e
             | Inr name \<Rightarrow> Inr (add_value (domain_key self) (map_option Str name) sys_act1))
          else Inr sys_act1)"
  by (simp add: convert_inform_by_primkey_def Let_def)

text \<open>
  C9. In a by-primary-key inform built from a result with at least one row, every
  attribute among the first four keys of the first row whose value is null, empty or
  the string \<open>None\<close> is a slot of the emitted action and carries the value
  \<open>not available\<close>. The inform returns an action whenever none of the JSON-formatted
  attributes (\<open>opening_hours\<close>, \<open>reviews\<close>, \<open>manner\<close>) among those keys has a value
  and the identifier is among the keys or can be resolved.
\<close>

theorem convert_inform_by_primkey_not_available:
  "(convert_inform_by_primkey lib domain self (result # rest) sys_act beliefstate = Inr sys_act'
      \<and> k \<in> set (take 4 (map fst result)) \<and> map_of result k = Some v
      \<and> (v = None \<or> v = Some [] \<or> v = Some ''None'')
    \<longrightarrow> k \<in> fst ` set (slot_values sys_act')
        \<and> Str ''not available'' \<in> set (get_values k sys_act'))
   \<and> ((\<forall>key \<in> set (take 4 (map fst result)).
          key \<in> {''opening_hours'', ''reviews'', ''manner''}
          \<longrightarrow> map_of result key \<in> {Some None, Some (Some []), Some (Some ''None'')})
       \<and> (domain_key self \<in> set (take 4 (map fst result))
            \<or> (\<exists>name. get_name domain self beliefstate = Inr name))
    \<longrightarrow> (\<exists>act. convert_inform_by_primkey lib domain self (result # rest) sys_act beliefstate
                 = Inr act))"
proof (rule conjI; rule impI)
  let ?keys = "primkey_add_keys lib result (take 4 (map fst result))
                 (sys_act\<lparr>type := Some InformByName\<rparr>)"
  assume a: "convert_inform_by_primkey lib domain self (result # rest) sys_act beliefstate
               = Inr sys_act'
      \<and> k \<in> set (take 4 (map fst result)) \<and> map_of result k = Some v
      \<and> (v = None \<or> v = Some [] \<or> v = Some ''None'')"
  then have r: "convert_inform_by_primkey lib domain self (result # rest) sys_act beliefstate
               = Inr sys_act'" ..
  obtain sys_act1 where keys: "?keys = Inr sys_act1"
    using r unfolding convert_inform_by_primkey_rows by (cases ?keys) simp_all
  have fin: "sys_act' = sys_act1
              \<or> (\<exists>name. sys_act' = add_value (domain_key self) name sys_act1)"
    using r keys unfolding convert_inform_by_primkey_rows
    by (cases "get_name domain self beliefstate") (auto split: if_splits)
  have one: "k \<in> fst ` set (slot_values sys_act1)
         \<and> Str ''not available'' \<in> set (get_values k sys_act1)"
    using primkey_add_keys_unavailable [OF keys, of k v] a by blast
  have "k \<in> fst ` set (slot_values (add_value slot name sys_act1))
         \<and> Str ''not available'' \<in> set (get_values k (add_value slot name sys_act1))"
    for slot name
    using one by (auto simp: get_values_add_value slots_add_value simp del: image_iff)
  with one fin show "k \<in> fst ` set (slot_values sys_act')
        \<and> Str ''not available'' \<in> set (get_values k sys_act')"
    by blast
next
  assume b: "(\<forall>key \<in> set (take 4 (map fst result)).
          key \<in> {''opening_hours'', ''reviews'', ''manner''}
          \<longrightarrow> map_of result key \<in> {Some None, Some (Some []), Some (Some ''None'')})
       \<and> (domain_key self \<in> set (take 4 (map fst result))
            \<or> (\<exists>name. get_name domain self beliefstate = Inr name))"
  have "\<forall>key \<in> set (take 4 (map fst result)). \<exists>v. map_of result key = Some v
             \<and> (key \<in> {''opening_hours'', ''reviews'', ''manner''}
                  \<longrightarrow> v = None \<or> v = Some [] \<or> v = Some ''None'')"
  proof
    fix key assume k: "key \<in> set (take 4 (map fst result))"
    from take_keys_present [OF k] obtain w where w: "map_of result key = Some w" ..
    from b have "\<forall>key \<in> set (take 4 (map fst result)).
          key \<in> {''opening_hours'', ''reviews'', ''manner''}
          \<longrightarrow> map_of result key \<in> {Some None, Some (Some []), Some (Some ''None'')}" ..
    from bspec [OF this k]
    have "key \<in> {''opening_hours'', ''reviews'', ''manner''}
          \<longrightarrow> map_of result key \<in> {Some None, Some (Some []), Some (Some ''None'')}" .
    with w show "\<exists>v. map_of result key = Some v
             \<and> (key \<in> {''opening_hours'', ''reviews'', ''manner''}
                  \<longrightarrow> v = None \<or> v = Some [] \<or> v = Some ''None'')"
      by simp
  qed
  from primkey_add_keys_returns [OF this, of lib "sys_act\<lparr>type := Some InformByName\<rparr>"]
  obtain sys_act1 where keys:
    "primkey_add_keys lib result (take 4 (map fst result))
       (sys_act\<lparr>type := Some InformByName\<rparr>) = Inr sys_act1" ..
  from b have "domain_key self \<in> set (take 4 (map fst result))
            \<or> (\<exists>name. get_name domain self beliefstate = Inr name)" ..
  then show "\<exists>act. convert_inform_by_primkey lib domain self (result # rest) sys_act beliefstate
                 = Inr act"
    unfolding convert_inform_by_primkey_rows keys by auto
qed

text \<open>A row for Roma without phone, address and postcode: all three are emitted as
  \<open>not available\<close>.\<close>

theorem convert_inform_by_primkey_not_available_witness:
  "convert_inform_by_primkey example_lib (example_domain rows_food) (example_policy rows_food 25)
     [example_detail_row] (SysAct_init\<lparr>type := Some InformByName\<rparr>) (example_beliefstate [UserActionType.Request])
   = Inr \<lparr>type = Some InformByName,
          slot_values = [(''name'', [Str ''Roma'']), (''phone'', [Str ''not available'']),
                         (''address'', [Str ''not available'']),
                         (''postcode'', [Str ''not available''])]\<rparr>
   \<and> ''phone'' \<in> fst ` set (slot_values \<lparr>type = Some InformByName,
          slot_values = [(''name'', [Str ''Roma'']), (''phone'', [Str ''not available'']),
                         (''address'', [Str ''not available'']),
                         (''postcode'', [Str ''not available''])]\<rparr>)
   \<and> Str ''not available'' \<in> set (get_values ''phone'' \<lparr>type = Some InformByName,
          slot_values = [(''name'', [Str ''Roma'']), (''phone'', [Str ''not available'']),
                         (''address'', [Str ''not available'']),
                         (''postcode'', [Str ''not available''])]\<rparr>)"
  (is "?run = Inr ?act \<and> _")
proof -
  have ev: "?run = Inr ?act"
    by code_simp
  have k: "''phone'' \<in> set (take 4 (map fst example_detail_row))"
    and v: "map_of example_detail_row ''phone'' = Some None"
    by code_simp+
  show ?thesis
    using convert_inform_by_primkey_not_available [THEN conjunct1, rule_format,
        of example_lib "example_domain rows_food" "example_policy rows_food 25"
        example_detail_row "[]" "SysAct_init\<lparr>type := Some InformByName\<rparr>"
        "example_beliefstate [UserActionType.Request]" ?act "''phone''" None] ev k v
    by blast
qed

subsection \<open>The next question: non-binary slots\<close>







lemma first_differing_none:
  assumes "\<forall>x \<in> set slots. \<exists>vals. map_of temp x = Some vals \<and> length (remdups vals) \<le> 1"
  shows "first_differing temp slots = Inr None"
  using assms by (induction slots) auto

lemma remdups_differ:
  "1 < length (remdups xs) \<longleftrightarrow> (\<exists>a \<in> set xs. \<exists>b \<in> set xs. a \<noteq> b)"
proof -
  have "card (set xs) \<le> Suc 0 \<longleftrightarrow> (\<forall>a \<in> set xs. \<forall>b \<in> set xs. a = b)"
    by (rule card_le_Suc0_iff_eq) simp
  then show ?thesis
    by (simp add: length_remdups_card_conv) (metis not_less_eq_eq Suc_leI not_less)
qed

lemma non_bin_slots_filter:
  "[slot \<leftarrow> xs. slot \<notin> set (filter P xs)] = filter (\<lambda>x. \<not> P x) xs"
  by (rule filter_cong) auto

lemma gen_next_request_slots:
  "gen_next_request domain temp beliefstate =
     (case first_differing temp
             [slot \<leftarrow> get_system_requestable_slots domain.
                open_slot beliefstate slot \<and> \<not> binary_slot domain slot] of
        Inl e \<Rightarrow> Inl e
      | Inr (Some slot) \<Rightarrow> Inr slot
      | Inr None \<Rightarrow>
          highest_info_gain domain
            [slot \<leftarrow> get_system_requestable_slots domain.
               open_slot beliefstate slot \<and> binary_slot domain slot] temp)"
  unfolding gen_next_request_def Let_def non_bin_slots_filter filter_filter
    open_slot_def binary_slot_def
  by (rule refl)








subsection \<open>The next question: binary slots\<close>

lemma hd_insort_key:
  "hd (insort_key f x ys) = (if ys = [] \<or> f x \<le> f (hd ys) then x else hd ys)"
  by (cases ys) auto

lemma sort_key_hd_first_min:
  fixes f :: "'a \<Rightarrow> 'b::linorder"
  assumes "xs \<noteq> []"
  shows "\<exists>pre post. xs = pre @ hd (sort_key f xs) # post
           \<and> (\<forall>y \<in> set pre. f (hd (sort_key f xs)) < f y)
           \<and> (\<forall>y \<in> set post. f (hd (sort_key f xs)) \<le> f y)"
  using assms
proof (induction xs)
  case Nil
  then show ?case by simp
next
  case (Cons x xs)
  show ?case
  proof (cases "xs = []")
    case True
    then show ?thesis
      by (intro exI [of _ "[]"]) simp
  next
    case False
    let ?m = "hd (sort_key f xs)"
    from Cons.IH [OF False] obtain pre post where
      d: "xs = pre @ ?m # post" and lt: "\<forall>y \<in> set pre. f ?m < f y"
      and le: "\<forall>y \<in> set post. f ?m \<le> f y"
      by blast
    have ne: "sort_key f xs \<noteq> []"
      using False by (metis length_0_conv length_sort)
    have all: "\<forall>y \<in> set xs. f ?m \<le> f y"
    proof
      fix y assume "y \<in> set xs"
      then have "y \<in> set pre \<or> y = ?m \<or> y \<in> set post"
        by (subst (asm) d) auto
      with lt le show "f ?m \<le> f y" by (auto simp: less_imp_le)
    qed
    show ?thesis
    proof (cases "f x \<le> f ?m")
      case True
      then have h: "hd (sort_key f (x # xs)) = x"
        by (simp add: hd_insort_key)
      have "\<forall>y \<in> set xs. f x \<le> f y"
        using all True by (meson order_trans)
      then show ?thesis
        unfolding h by (intro exI [of _ "[]"] exI [of _ xs]) simp
    next
      case False
      then have h: "hd (sort_key f (x # xs)) = ?m"
        using ne by (simp add: hd_insort_key)
      have "x # xs = (x # pre) @ ?m # post"
        using d by simp
      moreover have "\<forall>y \<in> set (x # pre). f ?m < f y"
        using lt False by auto
      ultimately show ?thesis
        unfolding h using le by blast
    qed
  qed
qed

lemma update_fresh:
  "k \<notin> fst ` set al \<Longrightarrow> AList.update k v al = al @ [(k, v)]"
  by (induction al) auto

lemma info_gain_diffs_append:
  "info_gain_diffs domain temp (xs @ ys) acc =
     (case info_gain_diffs domain temp xs acc of
        Inl e \<Rightarrow> Inl e
      | Inr d \<Rightarrow> info_gain_diffs domain temp ys d)"
  by (induction xs arbitrary: acc) (auto split: list.splits option.splits)

lemma info_gain_diffs_one:
  assumes "binary_slot domain x" and "map_of temp x \<noteq> None"
  shows "info_gain_diffs domain temp [x] acc =
           Inr (if both_values_occur domain temp x
                then AList.update x (split_diff domain temp x) acc else acc)"
proof -
  from assms(1) obtain v1 v2 where v: "get_possible_values domain x = [v1, v2]"
    unfolding binary_slot_def
    by (metis length_0_conv length_Suc_conv numeral_2_eq_2)
  from assms(2) obtain vals where t: "map_of temp x = Some vals" by blast
  show ?thesis
    by (simp add: v t both_values_occur_def split_diff_def)
qed

lemma diffs_inv_keep:
  assumes inv: "diffs_inv domain temp slots d"
    and x: "both_values_occur domain temp x \<longrightarrow> x \<in> fst ` set d"
  shows "diffs_inv domain temp (slots @ [x]) d"
  unfolding diffs_inv_def
proof (intro conjI allI impI ballI)
  fix kv assume "kv \<in> set d"
  with inv show "both_values_occur domain temp (fst kv)"
    "snd kv = split_diff domain temp (fst kv)" "fst kv \<in> set (slots @ [x])"
    unfolding diffs_inv_def by auto
next
  fix s assume "s \<in> set (slots @ [x])" "both_values_occur domain temp s"
  with inv x show "s \<in> fst ` set d"
    unfolding diffs_inv_def by auto
next
  fix pre_d e post_d assume "d = pre_d @ e # post_d"
  with inv obtain pre post where p: "slots = pre @ fst e # post"
    and q: "\<forall>s \<in> set pre. both_values_occur domain temp s \<longrightarrow> s \<in> fst ` set pre_d"
    unfolding diffs_inv_def by blast
  from p have "slots @ [x] = pre @ fst e # (post @ [x])" by simp
  with q show "\<exists>pre post. slots @ [x] = pre @ fst e # post
               \<and> (\<forall>s \<in> set pre. both_values_occur domain temp s \<longrightarrow> s \<in> fst ` set pre_d)"
    by blast
qed

lemma diffs_inv_add:
  assumes inv: "diffs_inv domain temp slots d"
    and x: "both_values_occur domain temp x" "x \<notin> fst ` set d"
  shows "diffs_inv domain temp (slots @ [x]) (d @ [(x, split_diff domain temp x)])"
  unfolding diffs_inv_def
proof (intro conjI allI impI ballI)
  fix kv assume "kv \<in> set (d @ [(x, split_diff domain temp x)])"
  with inv x(1) show "both_values_occur domain temp (fst kv)"
    "snd kv = split_diff domain temp (fst kv)" "fst kv \<in> set (slots @ [x])"
    unfolding diffs_inv_def by auto
next
  fix s assume "s \<in> set (slots @ [x])" "both_values_occur domain temp s"
  with inv show "s \<in> fst ` set (d @ [(x, split_diff domain temp x)])"
    unfolding diffs_inv_def by auto
next
  fix pre_d e post_d
  assume eq: "d @ [(x, split_diff domain temp x)] = pre_d @ e # post_d"
  show "\<exists>pre post. slots @ [x] = pre @ fst e # post
               \<and> (\<forall>s \<in> set pre. both_values_occur domain temp s \<longrightarrow> s \<in> fst ` set pre_d)"
  proof (cases post_d rule: rev_cases)
    case Nil
    with eq have "pre_d = d" "e = (x, split_diff domain temp x)" by simp_all
    moreover have "\<forall>s \<in> set slots. both_values_occur domain temp s \<longrightarrow> s \<in> fst ` set d"
      using inv unfolding diffs_inv_def by blast
    ultimately show ?thesis
      by (intro exI [of _ slots] exI [of _ "[]"]) simp
  next
    case (snoc ys y)
    with eq have "d = pre_d @ e # ys" by simp
    with inv obtain pre post where p: "slots = pre @ fst e # post"
      and q: "\<forall>s \<in> set pre. both_values_occur domain temp s \<longrightarrow> s \<in> fst ` set pre_d"
      unfolding diffs_inv_def by blast
    from p have "slots @ [x] = pre @ fst e # (post @ [x])" by simp
    with q show ?thesis by blast
  qed
qed

lemma info_gain_diffs_inv:
  assumes "\<forall>x \<in> set slots. binary_slot domain x \<and> map_of temp x \<noteq> None"
  shows "\<exists>d. info_gain_diffs domain temp slots [] = Inr d \<and> diffs_inv domain temp slots d"
  using assms
proof (induction slots rule: rev_induct)
  case Nil
  show ?case by (simp add: diffs_inv_def)
next
  case (snoc x slots)
  then obtain d where run: "info_gain_diffs domain temp slots [] = Inr d"
    and inv: "diffs_inv domain temp slots d"
    by auto
  from snoc.prems have bx: "binary_slot domain x" and tx: "map_of temp x \<noteq> None"
    by simp_all
  let ?d' = "if both_values_occur domain temp x
             then AList.update x (split_diff domain temp x) d else d"
  have step: "info_gain_diffs domain temp (slots @ [x]) [] = Inr ?d'"
    unfolding info_gain_diffs_append run using info_gain_diffs_one [OF bx tx, of d] by simp
  have "diffs_inv domain temp (slots @ [x]) ?d'"
  proof (cases "both_values_occur domain temp x")
    case False
    then show ?thesis using diffs_inv_keep [OF inv, of x] by simp
  next
    case True
    show ?thesis
    proof (cases "x \<in> fst ` set d")
      case False
      then show ?thesis
        using True diffs_inv_add [OF inv True False] by (simp add: update_fresh)
    next
      case present: True
      then obtain v where v: "map_of d x = Some v"
        by (cases "map_of d x") (auto simp: map_of_eq_None_iff)
      then have "(x, v) \<in> set d" by (rule map_of_SomeD)
      with inv have "v = split_diff domain temp x"
        unfolding diffs_inv_def by fastforce
      with v have "AList.update x (split_diff domain temp x) d = d"
        by (simp add: update_triv)
      then show ?thesis
        using True present diffs_inv_keep [OF inv, of x] by simp
    qed
  qed
  with step show ?case by blast
qed

lemma highest_info_gain_choice:
  assumes wf: "\<forall>x \<in> set bins. binary_slot domain x \<and> map_of temp x \<noteq> None"
  shows "\<exists>r. highest_info_gain domain bins temp = Inr r
           \<and> (if \<exists>x \<in> set bins. both_values_occur domain temp x
               then \<exists>pre post. bins = pre @ r # post \<and> both_values_occur domain temp r
                      \<and> (\<forall>x \<in> set pre. both_values_occur domain temp x
                             \<longrightarrow> split_diff domain temp r < split_diff domain temp x)
                      \<and> (\<forall>x \<in> set post. both_values_occur domain temp x
                             \<longrightarrow> split_diff domain temp r \<le> split_diff domain temp x)
               else r = [])"
proof -
  from info_gain_diffs_inv [OF wf] obtain d where
    run: "info_gain_diffs domain temp bins [] = Inr d" and inv: "diffs_inv domain temp bins d"
    by blast
  from inv have elems: "\<forall>kv \<in> set d. both_values_occur domain temp (fst kv)
                     \<and> snd kv = split_diff domain temp (fst kv) \<and> fst kv \<in> set bins"
    and all: "\<forall>s \<in> set bins. both_values_occur domain temp s \<longrightarrow> s \<in> fst ` set d"
    and ord: "\<forall>pre_d e post_d. d = pre_d @ e # post_d \<longrightarrow>
            (\<exists>pre post. bins = pre @ fst e # post
               \<and> (\<forall>s \<in> set pre. both_values_occur domain temp s \<longrightarrow> s \<in> fst ` set pre_d))"
    unfolding diffs_inv_def by blast+
  show ?thesis
  proof (cases "d = []")
    case True
    with all have "\<not> (\<exists>x \<in> set bins. both_values_occur domain temp x)" by auto
    with True run show ?thesis by (simp add: highest_info_gain_def)
  next
    case False
    let ?m = "hd (sort_key snd d)"
    have res: "highest_info_gain domain bins temp = Inr (fst ?m)"
      using False run by (simp add: highest_info_gain_def)
    from sort_key_hd_first_min [OF False, of snd] obtain pre_d post_d where
      dd: "d = pre_d @ ?m # post_d" and lt: "\<forall>y \<in> set pre_d. snd ?m < snd y"
      and le: "\<forall>y \<in> set post_d. snd ?m \<le> snd y"
      by blast
    have md: "?m \<in> set d" by (subst (2) dd) simp
    with elems have mb: "both_values_occur domain temp (fst ?m)"
      and mv: "snd ?m = split_diff domain temp (fst ?m)"
      by blast+
    from ord dd obtain pre post where bd: "bins = pre @ fst ?m # post"
      and early: "\<forall>s \<in> set pre. both_values_occur domain temp s \<longrightarrow> s \<in> fst ` set pre_d"
      by blast
    have value_of: "snd y = split_diff domain temp (fst y)" if "y \<in> set d" for y
      using elems that by blast
    have pre_lt: "split_diff domain temp (fst ?m) < split_diff domain temp x"
      if "x \<in> set pre" "both_values_occur domain temp x" for x
    proof -
      from early that obtain y where y: "y \<in> set pre_d" "x = fst y" by blast
      then have "y \<in> set d" by (subst dd) simp
      with value_of y lt mv show ?thesis by (metis)
    qed
    have post_le: "split_diff domain temp (fst ?m) \<le> split_diff domain temp x"
      if "x \<in> set post" "both_values_occur domain temp x" for x
    proof -
      from that bd have "x \<in> set bins" by simp
      with all that obtain y where y: "y \<in> set d" "x = fst y" by blast
      then have "y \<in> set pre_d \<or> y = ?m \<or> y \<in> set post_d"
        by (subst (asm) dd) auto
      then have "snd ?m \<le> snd y"
        using lt le by (auto simp: less_imp_le)
      with value_of [OF y(1)] y mv show ?thesis by simp
    qed
    have some: "\<exists>x \<in> set bins. both_values_occur domain temp x"
      using mb bd by auto
    show ?thesis
      unfolding res using some bd mb pre_lt post_le
      by (intro exI [of _ "fst ?m"]) (simp, blast)
  qed
qed

text \<open>
  C5. Let every open system-requestable slot be a column of the table and let no open
  non-binary slot have two different values. Then the selector returns a result, and:
  if some open binary slot has both of its possible values in its column, the result
  is such a slot, its difference of counts is strictly smaller than that of every such
  slot before it in the canonical order and at most that of every such slot after it
  (binary slots that lack a value are passed over); otherwise the result is the empty
  string.
\<close>

theorem gen_next_request_most_even_split:
  assumes cols: "\<forall>x \<in> set (get_system_requestable_slots domain).
                   open_slot beliefstate x \<longrightarrow> map_of temp x \<noteq> None"
    and same: "\<forall>x \<in> set (get_system_requestable_slots domain).
                   open_slot beliefstate x \<and> \<not> binary_slot domain x
                   \<longrightarrow> (case map_of temp x of
                          None \<Rightarrow> False
                        | Some vals \<Rightarrow> \<forall>a \<in> set vals. \<forall>b \<in> set vals. a = b)"
  shows "\<exists>r. gen_next_request domain temp beliefstate = Inr r
           \<and> (if \<exists>x \<in> set [slot \<leftarrow> get_system_requestable_slots domain.
                                 open_slot beliefstate slot \<and> binary_slot domain slot].
                    both_values_occur domain temp x
               then \<exists>pre post.
                      [slot \<leftarrow> get_system_requestable_slots domain.
                         open_slot beliefstate slot \<and> binary_slot domain slot] = pre @ r # post
                      \<and> both_values_occur domain temp r
                      \<and> (\<forall>x \<in> set pre. both_values_occur domain temp x
                             \<longrightarrow> split_diff domain temp r < split_diff domain temp x)
                      \<and> (\<forall>x \<in> set post. both_values_occur domain temp x
                             \<longrightarrow> split_diff domain temp r \<le> split_diff domain temp x)
               else r = [])"
proof -
  let ?bins = "[slot \<leftarrow> get_system_requestable_slots domain.
                  open_slot beliefstate slot \<and> binary_slot domain slot]"
  let ?non = "[slot \<leftarrow> get_system_requestable_slots domain.
                 open_slot beliefstate slot \<and> \<not> binary_slot domain slot]"
  have "\<forall>x \<in> set ?non. \<exists>vals. map_of temp x = Some vals \<and> length (remdups vals) \<le> 1"
  proof
    fix x assume "x \<in> set ?non"
    then have x: "x \<in> set (get_system_requestable_slots domain)"
      "open_slot beliefstate x \<and> \<not> binary_slot domain x"
      by simp_all
    from bspec [OF same x(1)] x(2)
    have c: "case map_of temp x of None \<Rightarrow> False
             | Some vals \<Rightarrow> \<forall>a \<in> set vals. \<forall>b \<in> set vals. a = b"
      by simp
    then obtain vals where v: "map_of temp x = Some vals"
      by (cases "map_of temp x") simp_all
    with c have "\<forall>a \<in> set vals. \<forall>b \<in> set vals. a = b" by simp
    then have "\<not> 1 < length (remdups vals)"
      unfolding remdups_differ by blast
    with v show "\<exists>vals. map_of temp x = Some vals \<and> length (remdups vals) \<le> 1"
      by simp
  qed
  then have none: "first_differing temp ?non = Inr None"
    by (rule first_differing_none)
  have g: "gen_next_request domain temp beliefstate = highest_info_gain domain ?bins temp"
    unfolding gen_next_request_slots none by simp
  have "\<forall>x \<in> set ?bins. binary_slot domain x \<and> map_of temp x \<noteq> None"
    using cols by simp
  from highest_info_gain_choice [OF this] show ?thesis
    unfolding g .
qed

text \<open>Five rows with \<open>live_music\<close> split 5/0 and \<open>outdoor\<close> split 3/2: \<open>live_music\<close>
  comes first in the canonical order and is passed over; the selector returns
  \<open>outdoor\<close>.\<close>

theorem gen_next_request_most_even_split_witness:
  "temp_add_rows ''name'' rows_binary (map (\<lambda>key. (key, [])) (map fst (hd rows_binary)))
     = Inr example_temp
   \<and> gen_next_request (example_domain rows_binary) example_temp (example_beliefstate [Inform])
       = Inr ''outdoor''
   \<and> split_diff (example_domain rows_binary) example_temp ''outdoor'' = 1
   \<and> both_values_occur (example_domain rows_binary) example_temp ''outdoor''
   \<and> \<not> both_values_occur (example_domain rows_binary) example_temp ''live_music''"
proof -
  let ?dom = "example_domain rows_binary"
  let ?bs = "example_beliefstate [Inform]"
  have 1: "\<forall>x \<in> set (get_system_requestable_slots ?dom).
                   open_slot ?bs x \<longrightarrow> map_of example_temp x \<noteq> None"
    and 2: "\<forall>x \<in> set (get_system_requestable_slots ?dom).
                   open_slot ?bs x \<and> \<not> binary_slot ?dom x
                   \<longrightarrow> (case map_of example_temp x of
                          None \<Rightarrow> False
                        | Some vals \<Rightarrow> \<forall>a \<in> set vals. \<forall>b \<in> set vals. a = b)"
    by code_simp+
  have ev: "temp_add_rows ''name'' rows_binary (map (\<lambda>key. (key, [])) (map fst (hd rows_binary)))
     = Inr example_temp"
    "gen_next_request ?dom example_temp ?bs = Inr ''outdoor''"
    "split_diff ?dom example_temp ''outdoor'' = 1"
    "both_values_occur ?dom example_temp ''outdoor''"
    "\<not> both_values_occur ?dom example_temp ''live_music''"
    by code_simp+
  from gen_next_request_most_even_split [OF 1 2]
  obtain r where "gen_next_request ?dom example_temp ?bs = Inr r" by blast
  with ev show ?thesis by simp
qed

end
